theory Spec2Isabelle
  imports Complex_Main
begin

section \<open>Time values\<close>

text \<open>
  The agents keep every timestamp as an ISO-8601 string and read it back with
  \<^verbatim>\<open>new Date(str)\<close>.  A timestamp is modelled by the JavaScript Date it denotes:
  \<open>Some ms\<close> is a valid Date (milliseconds since the epoch), \<open>None\<close> is an Invalid
  Date (an unparsable or missing string).  Arithmetic on an Invalid Date gives NaN, every
  comparison with NaN is false, and \<^verbatim>\<open>toISOString\<close> of an Invalid Date throws
  a RangeError.
\<close>

type_synonym jsdate = "int option"

definition maxTime :: int where
  "maxTime = 8640000000000000"

text \<open>\<^verbatim>\<open>new Date(number)\<close>: the TimeClip of ECMAScript.\<close>

definition newDate :: "int option \<Rightarrow> jsdate" where
  "newDate v = (case v of None \<Rightarrow> None
                | Some t \<Rightarrow> if \<bar>t\<bar> \<le> maxTime then Some t else None)"

section \<open>Freshness checks\<close>

text \<open>
  \<^verbatim>\<open>PlannerAgent.isPlanFresh\<close> and \<^verbatim>\<open>CollectorAgent.isDataFresh\<close>.  The first
  argument is the clock (\<^verbatim>\<open>new Date()\<close>), the second the stored state value: \<open>None\<close>
  when the key is absent (the early \<^verbatim>\<open>return false\<close>), otherwise the Date the
  stored string parses to.
\<close>

definition isPlanFresh :: "int \<Rightarrow> jsdate option \<Rightarrow> bool" where
  "isPlanFresh now lastPlanning =
     (case lastPlanning of
        None \<Rightarrow> False
      | Some lastTime \<Rightarrow>
          (case lastTime of
             None \<Rightarrow> False
           | Some t \<Rightarrow>
               (let diffHours = (of_int (now - t) :: rat) / (1000 * 60 * 60)
                in diffHours < 2)))"

definition isDataFresh :: "int \<Rightarrow> jsdate option \<Rightarrow> bool" where
  "isDataFresh now lastCollection =
     (case lastCollection of
        None \<Rightarrow> False
      | Some lastTime \<Rightarrow>
          (case lastTime of
             None \<Rightarrow> False
           | Some t \<Rightarrow>
               (let diffMinutes = (of_int (now - t) :: rat) / (1000 * 60)
                in diffMinutes < 20)))"

definition minutes :: "int \<Rightarrow> int" where
  "minutes n = n * 60000"

section \<open>Schedule entries\<close>

datatype jserror = RangeError | TypeError | Error string

text \<open>
  A schedule entry with the properties the planner reads or writes.  The type of its two
  times is a parameter: conflict resolution compares and copies the time properties as
  they stand in the plan (\<open>planEntry\<close>, below), while the optimisation passes read every
  time through \<^verbatim>\<open>new Date\<close> and write it back with \<^verbatim>\<open>toISOString\<close>, so that
  there \<open>startTime\<close> and \<open>endTime\<close> are the Dates the properties denote (\<open>entry\<close>).
\<close>

record 'tm entryOf =
  taskId :: string
  title :: string
  startTime :: 'tm
  endTime :: 'tm
  priority :: string
  reason :: string

type_synonym entry = "jsdate entryOf"

text \<open>\<^verbatim>\<open>new Date(a) - new Date(b)\<close>: a number, NaN (\<open>None\<close>) when a side is invalid.\<close>

definition dateDiff :: "jsdate \<Rightarrow> jsdate \<Rightarrow> int option" where
  "dateDiff a b = (case (a, b) of (Some x, Some y) \<Rightarrow> Some (x - y) | _ \<Rightarrow> None)"

definition numAdd :: "int option \<Rightarrow> int option \<Rightarrow> int option" where
  "numAdd a b = (case (a, b) of (Some x, Some y) \<Rightarrow> Some (x + y) | _ \<Rightarrow> None)"

text \<open>\<^verbatim>\<open>toISOString\<close>, read back as the Date it denotes; it throws on an Invalid Date.\<close>

definition toISOString :: "jsdate \<Rightarrow> jserror + jsdate" where
  "toISOString d = (case d of None \<Rightarrow> Inl RangeError | Some t \<Rightarrow> Inr (Some t))"

text \<open>
  The two date-fns functions the planner calls, as date-fns 3 and 4 define them:
  \<^verbatim>\<open>addHours(date, amount) = new Date(+date + amount * 3600000)\<close> with a possibly
  fractional amount (a non-integral time value is truncated by the Date constructor), and
  \<^verbatim>\<open>isBefore(a, b) = +a < +b\<close>.
\<close>

definition newDateNum :: "rat \<Rightarrow> jsdate" where
  "newDateNum r =
     (if \<bar>r\<bar> \<le> of_int maxTime then Some (if 0 \<le> r then \<lfloor>r\<rfloor> else \<lceil>r\<rceil>) else None)"

definition addHours :: "jsdate \<Rightarrow> rat \<Rightarrow> jsdate" where
  "addHours d amount =
     (case d of None \<Rightarrow> None | Some t \<Rightarrow> newDateNum (of_int t + amount * 3600000))"

definition isBefore :: "jsdate \<Rightarrow> jsdate \<Rightarrow> bool" where
  "isBefore a b = (case (a, b) of (Some x, Some y) \<Rightarrow> x < y | _ \<Rightarrow> False)"

section \<open>Buffer insertion\<close>

definition bufferMinutes :: rat where
  "bufferMinutes = 15"

text \<open>
  The body of the loop of \<^verbatim>\<open>addBufferTime\<close> for \<open>i > 0\<close>: \<open>prevTask\<close> is
  \<^verbatim>\<open>bufferedSchedule[i - 1]\<close>, \<open>task\<close> the copy of \<^verbatim>\<open>schedule[i]\<close>.
\<close>

definition bufferTask :: "entry \<Rightarrow> entry \<Rightarrow> jserror + entry" where
  "bufferTask prevTask task =
     (let prevEndTime = endTime prevTask;
          bufferEndTime = addHours prevEndTime (bufferMinutes / 60);
          currentStartTime = startTime task
      in if isBefore currentStartTime bufferEndTime then
           (let duration = dateDiff (endTime task) (startTime task) in
            case toISOString bufferEndTime of
              Inl e \<Rightarrow> Inl e
            | Inr newStart \<Rightarrow>
                (case toISOString (newDate (numAdd bufferEndTime duration)) of
                   Inl e \<Rightarrow> Inl e
                 | Inr newEnd \<Rightarrow> Inr (task\<lparr>startTime := newStart, endTime := newEnd\<rparr>)))
         else Inr task)"

text \<open>
  The loop: \<open>buffered\<close> is \<^verbatim>\<open>bufferedSchedule\<close>, which holds \<open>i\<close> entries when
  \<^verbatim>\<open>schedule[i]\<close> is visited, so \<open>i > 0\<close> is \<open>buffered \<noteq> []\<close> and
  \<^verbatim>\<open>bufferedSchedule[i - 1]\<close> is its last entry.
\<close>

fun bufferLoop :: "entry list \<Rightarrow> entry list \<Rightarrow> jserror + entry list" where
  "bufferLoop buffered [] = Inr buffered"
| "bufferLoop buffered (task # rest) =
     (if buffered \<noteq> [] then
        (case bufferTask (last buffered) task of
           Inl e \<Rightarrow> Inl e
         | Inr task' \<Rightarrow> bufferLoop (buffered @ [task']) rest)
      else bufferLoop (buffered @ [task]) rest)"

definition addBufferTime :: "entry list \<Rightarrow> jserror + entry list" where
  "addBufferTime sched = bufferLoop [] sched"

text \<open>The vocabulary of the buffer properties.\<close>

definition duration :: "entry \<Rightarrow> int option" where
  "duration e = dateDiff (endTime e) (startTime e)"

text \<open>The buffer boundary after an entry is a Date (its end is valid and not within 15
  minutes of the end of the Date range).\<close>

definition bufferFits :: "entry \<Rightarrow> bool" where
  "bufferFits e = (addHours (endTime e) (bufferMinutes / 60) \<noteq> None)"

definition gapOk :: "entry \<Rightarrow> entry \<Rightarrow> bool" where
  "gapOk a b = (case (endTime a, startTime b) of
                  (Some ea, Some sb) \<Rightarrow> ea + minutes 15 \<le> sb
                | _ \<Rightarrow> False)"

definition notEarlier :: "entry \<Rightarrow> entry \<Rightarrow> bool" where
  "notEarlier old new = (case (startTime old, startTime new) of
                           (Some a, Some b) \<Rightarrow> a \<le> b
                         | (None, None) \<Rightarrow> True
                         | _ \<Rightarrow> False)"

definition sameTask :: "entry \<Rightarrow> entry \<Rightarrow> bool" where
  "sameTask old new = (new\<lparr>startTime := startTime old, endTime := endTime old\<rparr> = old)"

text \<open>An entry with valid times between the epoch and \<open>H\<close>, ending no earlier than it
  starts.\<close>

definition timedWithin :: "int \<Rightarrow> entry \<Rightarrow> bool" where
  "timedWithin H e = (case (startTime e, endTime e) of
                        (Some s, Some t) \<Rightarrow> 0 \<le> s \<and> s \<le> t \<and> t \<le> H
                      | _ \<Rightarrow> False)"

text \<open>What one pass of the loop may do to an entry: leave it, or move its start later and
  its end by the same amount.\<close>

definition shifted :: "entry \<Rightarrow> entry \<Rightarrow> bool" where
  "shifted t t' = (t' = t \<or> (\<exists>s e b. startTime t = Some s \<and> endTime t = Some e \<and> s < b
                       \<and> t' = t\<lparr>startTime := Some b, endTime := Some (b + (e - s))\<rparr>))"

text \<open>A sample entry from \<open>s\<close> to \<open>e\<close> minutes after the epoch.\<close>

definition slot :: "string \<Rightarrow> int \<Rightarrow> int \<Rightarrow> entry" where
  "slot name s e = \<lparr>taskId = name, title = name, startTime = Some (minutes s),
                    endTime = Some (minutes e), priority = ''Medium'', reason = []\<rparr>"

section \<open>Conflict resolution\<close>

text \<open>
  A time property as \<^verbatim>\<open>JSON.parse\<close> leaves it in the plan or in a resolution: absent
  (\<^verbatim>\<open>undefined\<close>), \<^verbatim>\<open>null\<close>, a number, or a string.  \<open>IsoTime t\<close> is the string
  that \<^verbatim>\<open>toISOString\<close> gives for the time value \<open>t\<close>, \<open>TextTime s\<close> any other
  string, so that two time properties are \<^verbatim>\<open>===\<close> exactly when they are equal here
  (two spellings of one instant are different strings).  Booleans, arrays and objects in a
  time property are left out.
\<close>

datatype timeValue = NoTime | NullTime | NumberTime rat | IsoTime int | TextTime string

type_synonym planEntry = "timeValue entryOf"

text \<open>
  \<^verbatim>\<open>new Date(v)\<close> for a time property \<open>v\<close>.  \<open>parseDate\<close> stands for the
  parsing of a date string by the engine (\<^verbatim>\<open>Date.parse\<close>, implementation-defined
  outside the ISO format); the string of \<^verbatim>\<open>toISOString\<close> parses to its own time
  value.
\<close>

definition dateOf :: "(string \<Rightarrow> jsdate) \<Rightarrow> timeValue \<Rightarrow> jsdate" where
  "dateOf parseDate v =
     (case v of
        NoTime \<Rightarrow> None
      | NullTime \<Rightarrow> Some 0
      | NumberTime r \<Rightarrow> newDateNum r
      | IsoTime t \<Rightarrow> newDate (Some t)
      | TextTime s \<Rightarrow> parseDate s)"

text \<open>\<^verbatim>\<open>toISOString\<close> as the string it yields; it throws on an Invalid Date.\<close>

definition isoStringOf :: "jsdate \<Rightarrow> jserror + timeValue" where
  "isoStringOf d = (case d of None \<Rightarrow> Inl RangeError | Some t \<Rightarrow> Inr (IsoTime t))"

text \<open>
  A Number as a comparison sees it.  \<open>confidence\<close> below is the operand of
  \<^verbatim>\<open>resolution.confidence > 0.7\<close> after the conversion \<^verbatim>\<open>>\<close> applies to it: the
  number 0.9 and the string \<^verbatim>\<open>'0.9'\<close> are both \<open>Finite (9 / 10)\<close>, a missing or
  non-numeric confidence is \<open>NaN\<close>.
\<close>

datatype number = NaN | NegInfinity | Finite rat | PosInfinity

fun greaterThan :: "number \<Rightarrow> rat \<Rightarrow> bool" where
  "greaterThan NaN b = False"
| "greaterThan NegInfinity b = False"
| "greaterThan (Finite v) b = (v > b)"
| "greaterThan PosInfinity b = True"

text \<open>
  A detected conflict and the oracle's answer to it, as the prompts of
  \<^verbatim>\<open>ai-service.js\<close> describe them.  \<open>tasks\<close> is \<open>None\<close> when the conflict has no
  such property.
\<close>

record conflict =
  conflictType :: string
  tasks :: "string list option"
  severity :: string

record aiResolution =
  resolution :: string
  originalTime :: timeValue
  newTime :: timeValue
  resolutionReason :: string
  confidence :: number

text \<open>A row of the table \<^verbatim>\<open>conflict_resolutions\<close>; \<open>original_time\<close> holds the
  serialised conflict, modelled by the conflict itself.\<close>

record resolutionRow =
  task_id :: string
  conflict_type :: string
  original_time :: conflict
  resolved_time :: timeValue
  row_reason :: string

record resolvedConflict =
  originalConflict :: conflict
  appliedResolution :: "aiResolution option"
  applied :: bool

record aiPlan =
  schedule :: "planEntry list option"
  conflicts_detected :: "conflict list option"
  recommendations :: "string list option"

record resolvedPlan =
  resolvedSchedule :: "planEntry list"
  resolvedConflicts :: "resolvedConflict list"

definition conflictThreshold :: rat where
  "conflictThreshold = 7 / 10"

fun findIndex :: "('a \<Rightarrow> bool) \<Rightarrow> 'a list \<Rightarrow> nat option" where
  "findIndex P [] = None"
| "findIndex P (x # xs) =
     (if P x then Some 0 else map_option Suc (findIndex P xs))"

fun join :: "string \<Rightarrow> string list \<Rightarrow> string" where
  "join sep [] = []"
| "join sep [x] = x"
| "join sep (x # y # ys) = x @ sep @ join sep (y # ys)"

text \<open>
  \<^verbatim>\<open>applyConflictResolution\<close>.  The entry is found by \<^verbatim>\<open>===\<close> between its
  \<^verbatim>\<open>startTime\<close> and the resolution's \<^verbatim>\<open>originalTime\<close>; its new start is the
  resolution's \<^verbatim>\<open>newTime\<close> as it stands, its new end the ISO string of the new
  start plus the old duration.
\<close>

definition applyConflictResolution ::
  "(string \<Rightarrow> jsdate) \<Rightarrow> planEntry list \<Rightarrow> aiResolution \<Rightarrow> jserror + planEntry list" where
  "applyConflictResolution parseDate sched r =
     (if resolution r = ''move_task'' then
        (case findIndex (\<lambda>task. startTime task = originalTime r) sched of
           None \<Rightarrow> Inr sched
         | Some taskIndex \<Rightarrow>
             (let task = sched ! taskIndex;
                  originalDuration = dateDiff (dateOf parseDate (endTime task))
                                              (dateOf parseDate (startTime task))
              in case isoStringOf (newDate (numAdd (dateOf parseDate (newTime r)) originalDuration)) of
                   Inl e \<Rightarrow> Inl e
                 | Inr newEnd \<Rightarrow>
                     Inr (sched[taskIndex := task\<lparr>startTime := newTime r, endTime := newEnd,
                            reason := ''Moved due to conflict: '' @ resolutionReason r\<rparr>])))
      else Inr sched)"

text \<open>The row \<^verbatim>\<open>saveConflictResolution\<close> inserts for an applied resolution.\<close>

definition conflictRow :: "conflict \<Rightarrow> aiResolution \<Rightarrow> resolutionRow" where
  "conflictRow c r =
     \<lparr>task_id = (case tasks c of
                   None \<Rightarrow> ''unknown''
                 | Some ts \<Rightarrow> if join '','' ts = [] then ''unknown'' else join '','' ts),
      conflict_type = conflictType c,
      original_time = c,
      resolved_time = newTime r,
      row_reason = resolutionReason r\<rparr>"

definition confident :: "aiResolution \<Rightarrow> bool" where
  "confident r = greaterThan (confidence r) conflictThreshold"

text \<open>
  The loop of \<^verbatim>\<open>resolveConflicts\<close>.  The oracle (\<^verbatim>\<open>aiService.analyzeConflict\<close>,
  which answers \<open>None\<close> when the model is unreachable or its text holds no JSON) sees the
  conflict and the schedule as updated so far.  The state is the updated schedule, the
  list of resolved conflicts and the resolution log; an exception ends the loop and
  leaves the log as written until then.
\<close>

fun resolveLoop ::
  "(string \<Rightarrow> jsdate) \<Rightarrow> (conflict \<Rightarrow> planEntry list \<Rightarrow> aiResolution option) \<Rightarrow> conflict list
   \<Rightarrow> planEntry list \<Rightarrow> resolvedConflict list \<Rightarrow> resolutionRow list
   \<Rightarrow> (jserror + resolvedPlan) \<times> resolutionRow list" where
  "resolveLoop parseDate analyzeConflict [] updatedSchedule resolved rlog =
     (Inr \<lparr>resolvedSchedule = updatedSchedule, resolvedConflicts = resolved\<rparr>, rlog)"
| "resolveLoop parseDate analyzeConflict (c # cs) updatedSchedule resolved rlog =
     (case analyzeConflict c updatedSchedule of
        None \<Rightarrow>
          resolveLoop parseDate analyzeConflict cs updatedSchedule
            (resolved @ [\<lparr>originalConflict = c, appliedResolution = None, applied = False\<rparr>]) rlog
      | Some r \<Rightarrow>
          if confident r then
            (case applyConflictResolution parseDate updatedSchedule r of
               Inl e \<Rightarrow> (Inl e, rlog)
             | Inr updatedSchedule' \<Rightarrow>
                 resolveLoop parseDate analyzeConflict cs updatedSchedule'
                   (resolved @ [\<lparr>originalConflict = c, appliedResolution = Some r,
                                  applied = True\<rparr>])
                   (rlog @ [conflictRow c r]))
          else
            resolveLoop parseDate analyzeConflict cs updatedSchedule
              (resolved @ [\<lparr>originalConflict = c, appliedResolution = None, applied = False\<rparr>])
              rlog)"

definition resolveConflicts ::
  "(string \<Rightarrow> jsdate) \<Rightarrow> (conflict \<Rightarrow> planEntry list \<Rightarrow> aiResolution option)
   \<Rightarrow> resolutionRow list \<Rightarrow> aiPlan
   \<Rightarrow> (jserror + resolvedPlan) \<times> resolutionRow list" where
  "resolveConflicts parseDate analyzeConflict rlog plan =
     (let cs = (case conflicts_detected plan of None \<Rightarrow> [] | Some cs \<Rightarrow> cs)
      in case schedule plan of
           None \<Rightarrow> (Inl TypeError, rlog)
         | Some sched \<Rightarrow> resolveLoop parseDate analyzeConflict cs sched [] rlog)"

text \<open>
  Sample data.  Three entries: \<open>a\<close> starts at 1:00 written without milliseconds,
  \<open>b\<close> starts at the same instant written as \<^verbatim>\<open>toISOString\<close> writes it and lasts 30
  minutes, \<open>c\<close> starts at 3:00.  An overlap and a weather conflict, and an oracle that
  answers the first with confidence 0.9 and every other with exactly 0.7, both times
  asking to move the entry that starts at \<open>b\<close>'s start to 5:00.
\<close>

definition sampleParse :: "string \<Rightarrow> jsdate" where
  "sampleParse s =
     (if s = ''1970-01-01T01:00:00Z'' then Some (minutes 60)
      else if s = ''1970-01-01T02:00:00Z'' then Some (minutes 120)
      else None)"

definition entryA :: planEntry where
  "entryA = \<lparr>taskId = ''a'', title = ''a'', startTime = TextTime ''1970-01-01T01:00:00Z'',
              endTime = TextTime ''1970-01-01T02:00:00Z'', priority = ''Medium'', reason = []\<rparr>"

definition entryB :: planEntry where
  "entryB = \<lparr>taskId = ''b'', title = ''b'', startTime = IsoTime (minutes 60),
              endTime = IsoTime (minutes 90), priority = ''High'', reason = []\<rparr>"

definition entryC :: planEntry where
  "entryC = \<lparr>taskId = ''c'', title = ''c'', startTime = IsoTime (minutes 180),
              endTime = IsoTime (minutes 240), priority = ''Low'', reason = []\<rparr>"

definition movedB :: planEntry where
  "movedB = \<lparr>taskId = ''b'', title = ''b'', startTime = IsoTime (minutes 300),
              endTime = IsoTime (minutes 330), priority = ''High'',
              reason = ''Moved due to conflict: overlap''\<rparr>"

definition overlapConflict :: conflict where
  "overlapConflict = \<lparr>conflictType = ''overlap'', tasks = Some [''a'', ''b''], severity = ''high''\<rparr>"

definition weatherConflict :: conflict where
  "weatherConflict = \<lparr>conflictType = ''weather'', tasks = None, severity = ''low''\<rparr>"

definition moveLater :: "rat \<Rightarrow> aiResolution" where
  "moveLater c = \<lparr>resolution = ''move_task'', originalTime = IsoTime (minutes 60),
                  newTime = IsoTime (minutes 300), resolutionReason = ''overlap'',
                  confidence = Finite c\<rparr>"

definition sampleOracle :: "conflict \<Rightarrow> planEntry list \<Rightarrow> aiResolution option" where
  "sampleOracle c sched =
     (if conflictType c = ''overlap'' then Some (moveLater (9 / 10)) else Some (moveLater (7 / 10)))"

definition samplePlan :: "conflict list \<Rightarrow> aiPlan" where
  "samplePlan cs = \<lparr>schedule = Some [entryA, entryB, entryC], conflicts_detected = Some cs,
                     recommendations = None\<rparr>"

definition sampleConflicts :: "conflict list" where
  "sampleConflicts = [weatherConflict, overlapConflict]"

definition sampleResolved :: resolvedPlan where
  "sampleResolved =
     \<lparr>resolvedSchedule = [entryA, movedB, entryC],
      resolvedConflicts =
        [\<lparr>originalConflict = weatherConflict, appliedResolution = None, applied = False\<rparr>,
         \<lparr>originalConflict = overlapConflict,
           appliedResolution = Some (moveLater (9 / 10)), applied = True\<rparr>]\<rparr>"

definition sampleRow :: resolutionRow where
  "sampleRow = \<lparr>task_id = ''a,b'', conflict_type = ''overlap'', original_time = overlapConflict,
                 resolved_time = IsoTime (minutes 300), row_reason = ''overlap''\<rparr>"

section \<open>Learning from a reviewed day\<close>

text \<open>
  The review agent reads only the priority of a task and asks whether the task object is an
  element of \<^verbatim>\<open>completedTasks\<close> (\<^verbatim>\<open>includes\<close> compares object identity).  A task
  is therefore a reference, and \<open>prio\<close> gives the priority of the object behind it.
  \<open>performanceData\<close> flattens \<^verbatim>\<open>timeUsage\<close> and \<^verbatim>\<open>metrics\<close> to the properties
  that are read.
\<close>

type_synonym ref = nat

record performanceData =
  completedTasks :: "ref list"
  missedTasks :: "ref list"
  productiveHours :: "string list"
  averageDuration :: rat
  completionRate :: rat

record priorityStat =
  completed :: nat
  total :: nat

text \<open>\<^verbatim>\<open>priorityStats\<close> is an object used as a dictionary, kept here with its keys
  in insertion order, the order in which \<^verbatim>\<open>Object.keys\<close> walks priority names
  (names that are array indices or inherited properties of an object are not
  priorities).\<close>

fun countTask :: "bool \<Rightarrow> string \<Rightarrow> (string \<times> priorityStat) list \<Rightarrow> (string \<times> priorityStat) list" where
  "countTask isCompleted p [] =
     [(p, \<lparr>completed = (if isCompleted then 1 else 0), total = 1\<rparr>)]"
| "countTask isCompleted p ((k, st) # rest) =
     (if k = p
      then (k, \<lparr>completed = (if isCompleted then completed st + 1 else completed st),
                total = total st + 1\<rparr>) # rest
      else (k, st) # countTask isCompleted p rest)"

definition priorityStatsOf ::
  "(ref \<Rightarrow> string) \<Rightarrow> ref list \<Rightarrow> ref list \<Rightarrow> (string \<times> priorityStat) list" where
  "priorityStatsOf prio completedTs missedTs =
     foldl (\<lambda>stats task. countTask (task \<in> set completedTs) (prio task) stats) []
       (completedTs @ missedTs)"

text \<open>The body of the second loop: \<^verbatim>\<open>if (updated[priority])\<close> is a truthiness test, so
  a stored rate of 0 takes the else branch as a missing one does.\<close>

definition blendRate :: "(string \<rightharpoonup> rat) \<Rightarrow> string \<times> priorityStat \<Rightarrow> (string \<rightharpoonup> rat)" where
  "blendRate updated kv =
     (let p = fst kv; stats = snd kv;
          newRate = of_nat (completed stats) / of_nat (total stats)
      in case updated p of
           Some v \<Rightarrow> if v \<noteq> 0 then updated(p \<mapsto> (v * (7 / 10)) + (newRate * (3 / 10)))
                     else updated(p \<mapsto> newRate)
         | None \<Rightarrow> updated(p \<mapsto> newRate))"

definition updateCompletionRates ::
  "(string \<rightharpoonup> rat) option \<Rightarrow> (ref \<Rightarrow> string) \<Rightarrow> performanceData \<Rightarrow> (string \<rightharpoonup> rat)" where
  "updateCompletionRates current prio perf =
     foldl blendRate (case current of None \<Rightarrow> Map.empty | Some m \<Rightarrow> m)
       (priorityStatsOf prio (completedTasks perf) (missedTasks perf))"

text \<open>The period's rate for a priority, as the first loop counts it.\<close>

definition periodRate :: "(ref \<Rightarrow> string) \<Rightarrow> performanceData \<Rightarrow> string \<Rightarrow> rat" where
  "periodRate prio perf p =
     of_nat (length (filter (\<lambda>t. prio t = p \<and> t \<in> set (completedTasks perf))
                       (completedTasks perf @ missedTasks perf)))
     / of_nat (length (filter (\<lambda>t. prio t = p) (completedTasks perf @ missedTasks perf)))"

text \<open>\<^verbatim>\<open>metrics.completionRate\<close> of \<^verbatim>\<open>analyzeYesterdayPerformance\<close>: the quotient,
  or 0 when it is NaN or 0.\<close>

definition completionRateOf :: "nat \<Rightarrow> nat \<Rightarrow> rat" where
  "completionRateOf nCompleted nMissed =
     (if nCompleted + nMissed = 0 then 0 else of_nat nCompleted / of_nat (nCompleted + nMissed))"

section \<open>Preference adaptation\<close>

text \<open>A stored number that may be missing (\<^verbatim>\<open>undefined\<close>) or \<^verbatim>\<open>null\<close>, with the
  comparisons and the \<^verbatim>\<open>||\<close> default that \<^verbatim>\<open>adaptUserPreferences\<close> applies to it.\<close>

datatype jsnum = Undefined | Null | Num rat

fun numGt :: "jsnum \<Rightarrow> rat \<Rightarrow> bool" where
  "numGt Undefined b = False"
| "numGt Null b = (0 > b)"
| "numGt (Num v) b = (v > b)"

fun numLt :: "jsnum \<Rightarrow> rat \<Rightarrow> bool" where
  "numLt Undefined b = False"
| "numLt Null b = (0 < b)"
| "numLt (Num v) b = (v < b)"

fun orDefault :: "jsnum \<Rightarrow> rat \<Rightarrow> rat" where
  "orDefault Undefined d = d"
| "orDefault Null d = d"
| "orDefault (Num v) d = (if v = 0 then d else v)"

text \<open>\<^verbatim>\<open>x - 1\<close> on a stored number: NaN for \<^verbatim>\<open>undefined\<close>, \<open>-1\<close> for \<^verbatim>\<open>null\<close>.\<close>

fun numMinus :: "jsnum \<Rightarrow> rat \<Rightarrow> rat option" where
  "numMinus Undefined b = None"
| "numMinus Null b = Some (0 - b)"
| "numMinus (Num v) b = Some (v - b)"

record userPreferences =
  peakProductivityHours :: "string list option"
  preferredTaskDuration :: "int option"
  maxDailyTasks :: jsnum
  lastAdapted :: "int option"

definition noPreferences :: userPreferences where
  "noPreferences = \<lparr>peakProductivityHours = None, preferredTaskDuration = None,
                     maxDailyTasks = Undefined, lastAdapted = None\<rparr>"

definition mathRound :: "rat \<Rightarrow> int" where
  "mathRound x = \<lfloor>x + 1 / 2\<rfloor>"

text \<open>The new value of \<^verbatim>\<open>adaptations.maxDailyTasks\<close>, \<open>None\<close> when neither branch
  assigns it.  \<^verbatim>\<open>Math.max(3, NaN)\<close> is NaN, which cannot arise here: the subtraction
  is guarded by \<open>> 3\<close>.\<close>

definition adaptMaxDailyTasks :: "rat \<Rightarrow> jsnum \<Rightarrow> jsnum option" where
  "adaptMaxDailyTasks rate cur =
     (if rate < 7 / 10 \<and> numGt cur 3 then
        (case numMinus cur 1 of None \<Rightarrow> None | Some v \<Rightarrow> Some (Num (max 3 v)))
      else if rate > 9 / 10 \<and> numLt cur 12 then Some (Num (min 12 (orDefault cur 8 + 1)))
      else None)"

text \<open>
  \<^verbatim>\<open>adaptUserPreferences\<close> as a function of the clock, the stored preferences (\<open>None\<close>
  when the key holds nothing, read as the empty object) and the day's figures; the result
  is what the key holds afterwards.
\<close>

definition adaptUserPreferences ::
  "int \<Rightarrow> userPreferences option \<Rightarrow> performanceData \<Rightarrow> userPreferences option" where
  "adaptUserPreferences now stored perf =
     (let currentPrefs = (case stored of None \<Rightarrow> noPreferences | Some p \<Rightarrow> p);
          hours = (if length (productiveHours perf) > 0 then Some (productiveHours perf) else None);
          dur = (if averageDuration perf > 0 then Some (mathRound (averageDuration perf)) else None);
          maxT = adaptMaxDailyTasks (completionRate perf) (maxDailyTasks currentPrefs)
      in if hours \<noteq> None \<or> dur \<noteq> None \<or> maxT \<noteq> None then
           Some (currentPrefs
             \<lparr>peakProductivityHours :=
                (case hours of None \<Rightarrow> peakProductivityHours currentPrefs | Some h \<Rightarrow> Some h),
              preferredTaskDuration :=
                (case dur of None \<Rightarrow> preferredTaskDuration currentPrefs | Some d \<Rightarrow> Some d),
              maxDailyTasks :=
                (case maxT of None \<Rightarrow> maxDailyTasks currentPrefs | Some m \<Rightarrow> m),
              lastAdapted := Some now\<rparr>)
         else stored)"

text \<open>A sequence of adaptation calls, each with its clock reading and its day.\<close>

definition adaptAll ::
  "userPreferences option \<Rightarrow> (int \<times> performanceData) list \<Rightarrow> userPreferences option" where
  "adaptAll stored calls = foldl (\<lambda>st (now, perf). adaptUserPreferences now st perf) stored calls"

definition maxDailyOf :: "userPreferences option \<Rightarrow> jsnum" where
  "maxDailyOf stored = (case stored of None \<Rightarrow> Undefined | Some p \<Rightarrow> maxDailyTasks p)"

definition day :: "rat \<Rightarrow> performanceData" where
  "day rate = \<lparr>completedTasks = [], missedTasks = [], productiveHours = [],
               averageDuration = 0, completionRate = rate\<rparr>"

text \<open>A day with one productive hour and tasks of 30 minutes on average.\<close>

definition goodDay :: "rat \<Rightarrow> performanceData" where
  "goodDay rate = \<lparr>completedTasks = [], missedTasks = [], productiveHours = [''9:00-10:00''],
                   averageDuration = 30, completionRate = rate\<rparr>"

definition prefsWith :: "rat \<Rightarrow> userPreferences option" where
  "prefsWith m = Some (noPreferences\<lparr>maxDailyTasks := Num m\<rparr>)"

text \<open>What counting one more task makes of a priority's statistics.\<close>

definition bumped :: "bool \<Rightarrow> priorityStat option \<Rightarrow> priorityStat" where
  "bumped b s = (case s of
      None \<Rightarrow> \<lparr>completed = (if b then 1 else 0), total = 1\<rparr>
    | Some st \<Rightarrow> \<lparr>completed = (if b then completed st + 1 else completed st), total = total st + 1\<rparr>)"

text \<open>A day on which the one task, of priority High, was completed.\<close>

definition allHigh :: "ref \<Rightarrow> string" where
  "allHigh t = ''High''"

definition oneHighDone :: performanceData where
  "oneHighDone = \<lparr>completedTasks = [1], missedTasks = [], productiveHours = [],
                   averageDuration = 0, completionRate = 1\<rparr>"

section \<open>The agent runner\<close>

text \<open>
  The runner's counters (\<^verbatim>\<open>lastRun\<close>, the durations and the console output are
  wall-clock readings and left out), and the part of the database it writes: the table
  \<^verbatim>\<open>agent_logs\<close> and the state key \<^verbatim>\<open>runner_metrics\<close>.  The \<open>data\<close> of a log
  row is \<open>None\<close> for \<^verbatim>\<open>null\<close>; the row of a successful workflow holds the results
  of collection and planning and the result of execution or \<^verbatim>\<open>null\<close>.  \<open>'r\<close> is
  the type of the objects an agent's \<^verbatim>\<open>execute\<close> returns; they carry the
  \<^verbatim>\<open>metadata\<close> and \<^verbatim>\<open>results\<close> the summary reads, and the database
  accepts every write.
\<close>

record metrics =
  totalRuns :: nat
  successfulRuns :: nat
  errors :: nat

record 'r agentLog =
  agent_name :: string
  status :: string
  data :: "('r \<times> 'r \<times> 'r option) option"
  error_message :: "string option"

record 'r database =
  agent_logs :: "'r agentLog list"
  runner_metrics :: "metrics option"

text \<open>An agent's \<^verbatim>\<open>execute\<close>: it may change the database, and it returns its result
  (\<open>Inr\<close>) or throws an error with a message (\<open>Inl\<close>).\<close>

type_synonym 'r agent = "'r database \<Rightarrow> (string + 'r) \<times> 'r database"

definition toUpperCase :: "string \<Rightarrow> string" where
  "toUpperCase s =
     map (\<lambda>c. if 97 \<le> (of_char c :: nat) \<and> (of_char c :: nat) \<le> 122
               then char_of ((of_char c :: nat) - 32) else c) s"

definition logAgentExecution ::
  "string \<Rightarrow> string \<Rightarrow> ('r \<times> 'r \<times> 'r option) option \<Rightarrow> string option
   \<Rightarrow> 'r database \<Rightarrow> 'r database" where
  "logAgentExecution name st d msg db =
     db\<lparr>agent_logs := agent_logs db @
          [\<lparr>agent_name = name, status = st, data = d, error_message = msg\<rparr>]\<rparr>"

definition saveMetrics :: "metrics \<Rightarrow> 'r database \<Rightarrow> 'r database" where
  "saveMetrics m db = db\<lparr>runner_metrics := Some m\<rparr>"

text \<open>
  \<^verbatim>\<open>runAgent(agentName, standalone)\<close>: the result is what the caller gets (\<open>None\<close>
  for \<^verbatim>\<open>null\<close>; an agent's result is an object, hence truthy), the counters and the
  database afterwards.
\<close>

definition runAgent ::
  "(string \<rightharpoonup> 'r agent) \<Rightarrow> string \<Rightarrow> bool \<Rightarrow> metrics \<times> 'r database
   \<Rightarrow> 'r option \<times> metrics \<times> 'r database" where
  "runAgent agents agentName standalone st =
     (case agents agentName of
        None \<Rightarrow> (None, st)
      | Some execute \<Rightarrow>
          (let m1 = (fst st)\<lparr>totalRuns := totalRuns (fst st) + 1\<rparr> in
           case execute (snd st) of
             (Inr result, db1) \<Rightarrow>
               (let m2 = m1\<lparr>successfulRuns := successfulRuns m1 + 1\<rparr>
                in (Some result, m2, if standalone then saveMetrics m2 db1 else db1))
           | (Inl message, db1) \<Rightarrow>
               (let m2 = m1\<lparr>errors := errors m1 + 1\<rparr>;
                    db2 = logAgentExecution (toUpperCase agentName @ ''_RUNNER'')
                            ''critical_error'' None (Some message) db1
                in (None, m2, if standalone then saveMetrics m2 db2 else db2))))"

text \<open>The \<^verbatim>\<open>catch\<close> block of \<^verbatim>\<open>runFullWorkflow\<close>, followed by the final
  \<^verbatim>\<open>saveMetrics\<close>.\<close>

definition workflowFailed :: "string \<Rightarrow> metrics \<times> 'r database \<Rightarrow> metrics \<times> 'r database" where
  "workflowFailed message st =
     (fst st, saveMetrics (fst st)
        (logAgentExecution ''FULL_WORKFLOW'' ''failed'' None (Some message) (snd st)))"

definition runFullWorkflow ::
  "(string \<rightharpoonup> 'r agent) \<Rightarrow> metrics \<times> 'r database \<Rightarrow> metrics \<times> 'r database" where
  "runFullWorkflow agents st =
     (case runAgent agents ''collector'' False st of
        (None, st1) \<Rightarrow> workflowFailed ''Data collection failed'' st1
      | (Some collectionResult, st1) \<Rightarrow>
          (case runAgent agents ''planner'' False st1 of
             (None, st2) \<Rightarrow> workflowFailed ''AI planning failed'' st2
           | (Some planningResult, st2) \<Rightarrow>
               (case runAgent agents ''executor'' False st2 of
                  (executionResult, m3, db3) \<Rightarrow>
                    (m3, saveMetrics m3
                       (logAgentExecution ''FULL_WORKFLOW'' ''success''
                          (Some (collectionResult, planningResult, executionResult)) None db3)))))"

text \<open>The last row of the log.\<close>

definition lastLog :: "metrics \<times> 'r database \<Rightarrow> 'r agentLog option" where
  "lastLog st = (if agent_logs (snd st) = [] then None else Some (last (agent_logs (snd st))))"

text \<open>Sample agents over results that are plain strings: one that returns, one that
  throws.\<close>

definition returns :: "string \<Rightarrow> string agent" where
  "returns r db = (Inr r, db)"

definition throws :: "string \<Rightarrow> string agent" where
  "throws message db = (Inl message, db)"

definition freshMetrics :: metrics where
  "freshMetrics = \<lparr>totalRuns = 0, successfulRuns = 0, errors = 0\<rparr>"

definition freshDb :: "string database" where
  "freshDb = \<lparr>agent_logs = [], runner_metrics = None\<rparr>"

definition sampleAgents :: "string agent \<Rightarrow> string agent \<Rightarrow> (string \<rightharpoonup> string agent)" where
  "sampleAgents collect exec =
     [''collector'' \<mapsto> collect, ''planner'' \<mapsto> returns ''plan'', ''executor'' \<mapsto> exec]"

section \<open>Executions in flight\<close>

text \<open>
  \<^verbatim>\<open>runAgent\<close> is asynchronous.  A call runs the body up to
  \<^verbatim>\<open>await agent.execute()\<close>: it looks the agent up, returns \<^verbatim>\<open>null\<close> for an
  unknown name, and otherwise increments \<^verbatim>\<open>totalRuns\<close> and calls \<^verbatim>\<open>execute\<close>.
  The rest of the body runs when the promise of \<^verbatim>\<open>execute\<close> settles, and the event
  loop may start other calls in between.  These two halves are the steps below.
  \<open>awaiting\<close> lists the calls of \<^verbatim>\<open>execute\<close> that have not settled, each with the
  agent's name and the \<^verbatim>\<open>standalone\<close> flag of its invocation; it stands for the
  promises the engine holds: the source keeps no such list and tests nothing but the
  agent's existence before calling \<^verbatim>\<open>execute\<close>.  The agent's work on the database
  is taken at the moment its promise settles, and the writes of the second half as
  immediate.
\<close>

record 'r runner =
  counters :: metrics
  store :: "'r database"
  awaiting :: "(string \<times> bool) list"


definition runAgentCall ::
  "(string \<rightharpoonup> 'r agent) \<Rightarrow> string \<Rightarrow> bool \<Rightarrow> 'r runner \<Rightarrow> 'r runner" where
  "runAgentCall agents agentName standalone st =
     (case agents agentName of
        None \<Rightarrow> st
      | Some execute \<Rightarrow>
          st\<lparr>counters := (counters st)\<lparr>totalRuns := totalRuns (counters st) + 1\<rparr>,
             awaiting := awaiting st @ [(agentName, standalone)]\<rparr>)"

definition runAgentResume ::
  "(string \<rightharpoonup> 'r agent) \<Rightarrow> nat \<Rightarrow> 'r runner \<Rightarrow> 'r option \<times> 'r runner" where
  "runAgentResume agents k st =
     (if k < length (awaiting st) then
        (let agentName = fst (awaiting st ! k);
             standalone = snd (awaiting st ! k);
             others = take k (awaiting st) @ drop (Suc k) (awaiting st)
         in case agents agentName of
              None \<Rightarrow> (None, st)
            | Some execute \<Rightarrow>
                (case execute (store st) of
                   (Inr result, db1) \<Rightarrow>
                     (let m2 = (counters st)\<lparr>successfulRuns := successfulRuns (counters st) + 1\<rparr>
                      in (Some result,
                          \<lparr>counters = m2,
                           store = (if standalone then saveMetrics m2 db1 else db1),
                           awaiting = others\<rparr>))
                 | (Inl message, db1) \<Rightarrow>
                     (let m2 = (counters st)\<lparr>errors := errors (counters st) + 1\<rparr>;
                          db2 = logAgentExecution (toUpperCase agentName @ ''_RUNNER'')
                                  ''critical_error'' None (Some message) db1
                      in (None,
                          \<lparr>counters = m2,
                           store = (if standalone then saveMetrics m2 db2 else db2),
                           awaiting = others\<rparr>))))
      else (None, st))"





section \<open>The planning oracle\<close>

text \<open>
  \<^verbatim>\<open>text.match(/\{[\s\S]*\}/)\<close>: the span from the first opening brace to the last
  closing brace after it, if there is one.
\<close>

definition jsonMatch :: "string \<Rightarrow> string option" where
  "jsonMatch text =
     (let fromBrace = dropWhile (\<lambda>c. c \<noteq> CHR ''{'') text
      in if fromBrace = [] then None
         else if CHR ''}'' \<in> set (tl fromBrace)
         then Some (CHR ''{'' # rev (dropWhile (\<lambda>c. c \<noteq> CHR ''}'') (rev (tl fromBrace))))
         else None)"

text \<open>
  \<^verbatim>\<open>parsePlanningResponse\<close>.  \<open>jsonParse\<close> stands for \<^verbatim>\<open>JSON.parse\<close> on a
  brace-delimited span: the plan object it yields, or \<open>None\<close> when it throws a
  SyntaxError.
\<close>

definition parsePlanningResponse :: "(string \<Rightarrow> aiPlan option) \<Rightarrow> string \<Rightarrow> aiPlan" where
  "parsePlanningResponse jsonParse text =
     (case jsonMatch text of
        Some j \<Rightarrow>
          (case jsonParse j of
             Some plan \<Rightarrow> plan
           | None \<Rightarrow> \<lparr>schedule = Some [], conflicts_detected = Some [],
                      recommendations = Some [''Error parsing AI response'']\<rparr>)
      | None \<Rightarrow> \<lparr>schedule = Some [], conflicts_detected = Some [],
                 recommendations = Some [''Failed to parse AI response'']\<rparr>)"

text \<open>
  \<^verbatim>\<open>generateTaskPlan\<close>.  \<open>reply\<close> is the outcome of the call to the language model:
  its text, or the error it failed with (the model is unreachable).
\<close>

definition generateTaskPlan :: "(string \<Rightarrow> aiPlan option) \<Rightarrow> string + string \<Rightarrow> jserror + aiPlan" where
  "generateTaskPlan jsonParse reply =
     (case reply of
        Inr text \<Rightarrow> Inr (parsePlanningResponse jsonParse text)
      | Inl failure \<Rightarrow> Inl (Error ''Failed to generate AI plan''))"

text \<open>The reply has no parsable structure: no span in braces, or one that JSON.parse
  rejects.\<close>

definition unparsable :: "(string \<Rightarrow> aiPlan option) \<Rightarrow> string \<Rightarrow> bool" where
  "unparsable jsonParse text =
     (case jsonMatch text of None \<Rightarrow> True | Some j \<Rightarrow> jsonParse j = None)"

definition rejectAll :: "string \<Rightarrow> aiPlan option" where
  "rejectAll j = None"

section \<open>Productive-slot reassignment\<close>

text \<open>
  The pass that runs before buffer insertion when productive slots have been learned.  A
  slot object is read at \<^verbatim>\<open>start\<close> and \<^verbatim>\<open>end\<close>; \<open>slotStart\<close> and \<open>slotEnd\<close>
  are what these reads give, \<open>None\<close> when the object has no such property.  The slots the
  review agent stores (\<^verbatim>\<open>updateProductiveTimeSlots\<close>) are built as
  \<^verbatim>\<open>{ time, weight }\<close> and have neither.
\<close>

record productiveSlot =
  time :: string
  weight :: nat
  slotStart :: jsdate
  slotEnd :: jsdate

definition learnedSlot :: "string \<Rightarrow> nat \<Rightarrow> productiveSlot" where
  "learnedSlot t w = \<lparr>time = t, weight = w, slotStart = None, slotEnd = None\<rparr>"

definition priorityWeight :: "string \<Rightarrow> int" where
  "priorityWeight p =
     (if p = ''High'' then 3 else if p = ''Medium'' then 2 else if p = ''Low'' then 1 else 1)"

text \<open>The sort is stable and descending in the priority weight.\<close>

definition optimizeForProductiveTimeSlots :: "entry list \<Rightarrow> productiveSlot list \<Rightarrow> entry list" where
  "optimizeForProductiveTimeSlots sched productiveSlots =
     (let sortedTasks = sort_key (\<lambda>task. - priorityWeight (priority task)) sched
      in map (\<lambda>(index, task).
                if priority task = ''High'' \<and> length productiveSlots > 0 then
                  (let productiveSlot = productiveSlots ! (index mod length productiveSlots)
                   in task\<lparr>startTime := slotStart productiveSlot,
                           endTime := slotEnd productiveSlot,
                           reason := ''Scheduled during productive time slot: '' @ reason task\<rparr>)
                else task)
             (enumerate 0 sortedTasks))"

text \<open>A High-priority entry after that pass with learned slots: it has lost its times.\<close>

definition untimedHigh :: entry where
  "untimedHigh = \<lparr>taskId = ''h'', title = ''h'', startTime = None, endTime = None,
                   priority = ''High'', reason = ''Scheduled during productive time slot: ''\<rparr>"

section \<open>Properties of the freshness checks\<close>

lemma isPlanFresh_iff: "isPlanFresh now (Some (Some t)) \<longleftrightarrow> now - t < minutes 120"
proof -
  have "(of_int (now - t) :: rat) / 3600000 < 2 \<longleftrightarrow> (of_int (now - t) :: rat) < 7200000"
    by (simp add: divide_less_eq)
  also have "\<dots> \<longleftrightarrow> (of_int (now - t) :: rat) < of_int 7200000"
    by simp
  also have "\<dots> \<longleftrightarrow> now - t < 7200000"
    by (simp only: of_int_less_iff)
  finally show ?thesis
    by (simp add: isPlanFresh_def minutes_def)
qed

lemma isDataFresh_iff: "isDataFresh now (Some (Some t)) \<longleftrightarrow> now - t < minutes 20"
proof -
  have "(of_int (now - t) :: rat) / 60000 < 20 \<longleftrightarrow> (of_int (now - t) :: rat) < 1200000"
    by (simp add: divide_less_eq)
  also have "\<dots> \<longleftrightarrow> (of_int (now - t) :: rat) < of_int 1200000"
    by simp
  also have "\<dots> \<longleftrightarrow> now - t < 1200000"
    by (simp only: of_int_less_iff)
  finally show ?thesis
    by (simp add: isDataFresh_def minutes_def)
qed

text \<open>
  C9.  Both freshness checks compare strictly against their window.  A plan stamped
  exactly 120 minutes before the check is not fresh and one stamped 119 minutes before is
  fresh; collected data stamped exactly 20 minutes before the check is not fresh, and data
  is fresh exactly when its age is strictly below 20 minutes; with no stored timestamp
  both checks answer not fresh.
\<close>

theorem freshness_strict_window:
  "\<not> isPlanFresh now (Some (Some (now - minutes 120)))
   \<and> isPlanFresh now (Some (Some (now - minutes 119)))
   \<and> isPlanFresh now (Some (Some t)) = (now - t < minutes 120)
   \<and> \<not> isDataFresh now (Some (Some (now - minutes 20)))
   \<and> isDataFresh now (Some (Some t)) = (now - t < minutes 20)
   \<and> \<not> isPlanFresh now None
   \<and> \<not> isDataFresh now None"
proof -
  have a: "\<not> isPlanFresh now (Some (Some (now - minutes 120)))"
    by (simp add: isPlanFresh_iff)
  have b: "isPlanFresh now (Some (Some (now - minutes 119)))"
    by (simp add: isPlanFresh_iff) (simp add: minutes_def)
  have c: "\<not> isDataFresh now (Some (Some (now - minutes 20)))"
    by (simp add: isDataFresh_iff)
  have d: "\<not> isPlanFresh now None" "\<not> isDataFresh now None"
    by (simp_all add: isPlanFresh_def isDataFresh_def)
  from a b c d show ?thesis
    by (simp add: isPlanFresh_iff isDataFresh_iff)
qed

section \<open>Properties of buffer insertion\<close>

lemma addHours_buffer:
  "addHours (Some t) (bufferMinutes / 60) = newDate (Some (t + minutes 15))"
proof -
  have e: "(of_int t :: rat) + bufferMinutes / 60 * 3600000 = of_int (t + minutes 15)"
    by (simp add: bufferMinutes_def minutes_def)
  have a: "\<bar>of_int (t + minutes 15) :: rat\<bar> \<le> of_int maxTime \<longleftrightarrow> \<bar>t + minutes 15\<bar> \<le> maxTime"
    by (metis of_int_abs of_int_le_iff)
  show ?thesis
    unfolding addHours_def newDateNum_def newDate_def option.case e a
    by simp
qed

lemma bufferTask_Inr:
  assumes "bufferTask p t = Inr t'"
  shows "(t' = t \<and> \<not> isBefore (startTime t) (addHours (endTime p) (bufferMinutes / 60)))
       \<or> (\<exists>s e b. startTime t = Some s \<and> endTime t = Some e
             \<and> addHours (endTime p) (bufferMinutes / 60) = Some b \<and> s < b
             \<and> t' = t\<lparr>startTime := Some b, endTime := Some (b + (e - s))\<rparr>)"
  using assms
  by (auto simp: bufferTask_def Let_def isBefore_def toISOString_def newDate_def numAdd_def
        dateDiff_def split: if_splits option.splits sum.splits)

lemma bufferTask_shifted: "bufferTask p t = Inr t' \<Longrightarrow> shifted t t'"
  using bufferTask_Inr[of p t t'] by (auto simp: shifted_def)

lemma bufferLoop_shifted:
  "bufferLoop acc xs = Inr out \<Longrightarrow> \<exists>ys. out = acc @ ys \<and> list_all2 shifted xs ys"
proof (induction xs arbitrary: acc)
  case Nil
  then show ?case by simp
next
  case (Cons x xs)
  show ?case
  proof (cases "acc = []")
    case True
    with Cons.prems have "bufferLoop [x] xs = Inr out" by simp
    from Cons.IH[OF this] obtain ys where "out = [x] @ ys" "list_all2 shifted xs ys" by blast
    moreover have "shifted x x" by (simp add: shifted_def)
    ultimately show ?thesis using True by auto
  next
    case False
    with Cons.prems obtain x' where x': "bufferTask (last acc) x = Inr x'"
      and l: "bufferLoop (acc @ [x']) xs = Inr out"
      by (auto split: sum.splits)
    from Cons.IH[OF l] obtain ys where "out = (acc @ [x']) @ ys" "list_all2 shifted xs ys" by blast
    with bufferTask_shifted[OF x'] show ?thesis by auto
  qed
qed

lemma bufferTask_gap:
  assumes "bufferTask p t = Inr t'" "bufferFits p" "startTime t \<noteq> None"
  shows "gapOk p t'"
proof -
  from assms(2) obtain pe where pe: "endTime p = Some pe"
    by (auto simp: bufferFits_def addHours_def split: option.splits)
  with assms(2) have b: "addHours (Some pe) (bufferMinutes / 60) = Some (pe + minutes 15)"
    by (auto simp: bufferFits_def addHours_buffer newDate_def split: if_splits)
  from assms(3) obtain s where s: "startTime t = Some s" by auto
  from bufferTask_Inr[OF assms(1)] show ?thesis
    by (auto simp: gapOk_def pe b s isBefore_def)
qed

lemma bufferLoop_gap:
  "bufferLoop acc xs = Inr out \<Longrightarrow> successively gapOk acc
   \<Longrightarrow> \<forall>e\<in>set xs. startTime e \<noteq> None \<Longrightarrow> \<forall>e\<in>set out. bufferFits e
   \<Longrightarrow> successively gapOk out"
proof (induction xs arbitrary: acc)
  case Nil
  then show ?case by simp
next
  case (Cons x xs)
  show ?case
  proof (cases "acc = []")
    case True
    with Cons.prems have l: "bufferLoop [x] xs = Inr out" by simp
    show ?thesis
      by (rule Cons.IH[OF l]) (use Cons.prems in auto)
  next
    case False
    with Cons.prems obtain x' where x': "bufferTask (last acc) x = Inr x'"
      and l: "bufferLoop (acc @ [x']) xs = Inr out"
      by (auto split: sum.splits)
    from bufferLoop_shifted[OF l] have "last acc \<in> set out" using False by auto
    with Cons.prems have "bufferFits (last acc)" by blast
    from bufferTask_gap[OF x' this] Cons.prems have "gapOk (last acc) x'" by simp
    with Cons.prems False have "successively gapOk (acc @ [x'])"
      by (simp add: successively_append_iff)
    from Cons.IH[OF l this] Cons.prems show ?thesis by simp
  qed
qed

lemma successively_nth: "successively P xs \<Longrightarrow> Suc i < length xs \<Longrightarrow> P (xs ! i) (xs ! Suc i)"
  by (induction P xs arbitrary: i rule: successively.induct) (auto simp: nth_Cons split: nat.splits)

lemma shifted_duration: "shifted t t' \<Longrightarrow> duration t' = duration t"
  by (auto simp: shifted_def duration_def dateDiff_def)

lemma shifted_sameTask: "shifted t t' \<Longrightarrow> sameTask t t'"
  by (auto simp: shifted_def sameTask_def)

lemma shifted_notEarlier: "shifted t t' \<Longrightarrow> notEarlier t t'"
  by (auto simp: shifted_def notEarlier_def split: option.splits)

lemmas buffer_eval = addBufferTime_def bufferTask_def Let_def slot_def addHours_buffer
  newDate_def isBefore_def toISOString_def numAdd_def dateDiff_def minutes_def maxTime_def

lemma addBufferTime_sample:
  "addBufferTime [slot ''a'' 0 60, slot ''b'' 50 80, slot ''c'' 200 220] =
     Inr [slot ''a'' 0 60, slot ''b'' 75 105, slot ''c'' 200 220]"
  by (simp add: buffer_eval)

text \<open>
  The pass returns on every schedule whose entries have valid times between the epoch and
  \<open>H\<close> with end no earlier than start, as long as \<open>H\<close> plus one buffer and one span
  \<open>H\<close> per entry stays inside the range of Dates (for times up to the year 2100, about
  two thousand entries).
\<close>

lemma bufferTask_returns:
  assumes x: "timedWithin H x"
    and p: "endTime p = Some pe" "0 \<le> pe" "pe \<le> B"
    and b: "B + (H + minutes 15) \<le> maxTime" "H \<le> B"
  shows "\<exists>x' t. bufferTask p x = Inr x' \<and> endTime x' = Some t \<and> 0 \<le> t \<and> t \<le> B + (H + minutes 15)"
proof -
  from x obtain s t where st: "startTime x = Some s" "endTime x = Some t" "0 \<le> s" "s \<le> t" "t \<le> H"
    by (auto simp: timedWithin_def split: option.splits)
  have m: "(0::int) \<le> minutes 15" by (simp add: minutes_def)
  from p b m st have "\<bar>pe + minutes 15\<bar> \<le> maxTime" by simp
  with p have be: "addHours (endTime p) (bufferMinutes / 60) = Some (pe + minutes 15)"
    by (simp add: addHours_buffer newDate_def)
  show ?thesis
  proof (cases "s < pe + minutes 15")
    case True
    from st p b m have "\<bar>pe + minutes 15 + (t - s)\<bar> \<le> maxTime" by simp
    with True st be have "bufferTask p x =
        Inr (x\<lparr>startTime := Some (pe + minutes 15), endTime := Some (pe + minutes 15 + (t - s))\<rparr>)"
      by (simp add: bufferTask_def Let_def isBefore_def dateDiff_def numAdd_def newDate_def
          toISOString_def)
    moreover from st p m have "0 \<le> pe + minutes 15 + (t - s)"
      "pe + minutes 15 + (t - s) \<le> B + (H + minutes 15)" by simp_all
    ultimately show ?thesis by simp
  next
    case False
    with st be have "bufferTask p x = Inr x"
      by (simp add: bufferTask_def Let_def isBefore_def)
    moreover from st b m have "0 \<le> t" "t \<le> B + (H + minutes 15)" by simp_all
    ultimately show ?thesis using st by simp
  qed
qed

lemma bufferLoop_returns:
  assumes "\<forall>e\<in>set xs. timedWithin H e"
    and "acc \<noteq> [] \<longrightarrow> (\<exists>pe. endTime (last acc) = Some pe \<and> 0 \<le> pe \<and> pe \<le> B)"
    and "H \<le> B" "0 \<le> H"
    and "B + int (length xs) * (H + minutes 15) \<le> maxTime"
  shows "\<exists>out. bufferLoop acc xs = Inr out"
  using assms
proof (induction xs arbitrary: acc B)
  case Nil
  then show ?case by simp
next
  case (Cons x xs)
  have m: "(0::int) \<le> minutes 15" by (simp add: minutes_def)
  let ?c = "H + minutes 15"
  from Cons.prems(4) m have c0: "0 \<le> ?c" by simp
  from Cons.prems(5) have bound: "(B + ?c) + int (length xs) * ?c \<le> maxTime"
    by (simp add: algebra_simps)
  from c0 have "0 \<le> int (length xs) * ?c" by simp
  with bound have b1: "B + ?c \<le> maxTime" by linarith
  from Cons.prems(3) c0 have hb: "H \<le> B + ?c" by simp
  from Cons.prems(1) have x: "timedWithin H x" and xs: "\<forall>e\<in>set xs. timedWithin H e" by simp_all
  show ?case
  proof (cases "acc = []")
    case True
    from x obtain t where "endTime x = Some t" "0 \<le> t" "t \<le> H"
      by (auto simp: timedWithin_def split: option.splits)
    with hb have inv: "[x] \<noteq> [] \<longrightarrow> (\<exists>pe. endTime (last [x]) = Some pe \<and> 0 \<le> pe \<and> pe \<le> B + ?c)"
      by auto
    from Cons.IH[OF xs inv hb Cons.prems(4) bound] True show ?thesis by simp
  next
    case False
    with Cons.prems(2) obtain pe where p: "endTime (last acc) = Some pe" "0 \<le> pe" "pe \<le> B"
      by blast
    from bufferTask_returns[OF x p b1 Cons.prems(3)] obtain x' t where
      x': "bufferTask (last acc) x = Inr x'" "endTime x' = Some t" "0 \<le> t" "t \<le> B + ?c"
      by blast
    then have inv: "acc @ [x'] \<noteq> [] \<longrightarrow>
        (\<exists>pe. endTime (last (acc @ [x'])) = Some pe \<and> 0 \<le> pe \<and> pe \<le> B + ?c)"
      by simp
    from Cons.IH[OF xs inv hb Cons.prems(4) bound] False x' show ?thesis by simp
  qed
qed

lemma addBufferTime_returns:
  assumes "\<forall>e\<in>set sched. timedWithin H e" "0 \<le> H"
    and "H + int (length sched) * (H + minutes 15) \<le> maxTime"
  shows "\<exists>out. addBufferTime sched = Inr out"
  unfolding addBufferTime_def
  by (rule bufferLoop_returns[where B = H and H = H]) (use assms in auto)

text \<open>
  On entries with times the pass does what its comments say.  When it returns, every
  entry keeps the duration (end minus start) it had in the input; and when every entry
  of the input has a valid start time and the buffer boundary after every entry of the
  output is a Date, each entry of the output starts at least 15 minutes after the end of
  the entry before it.
\<close>

lemma addBufferTime_buffer_invariant:
  assumes "addBufferTime sched = Inr out"
  shows "length out = length sched
     \<and> (\<forall>i<length out. duration (out ! i) = duration (sched ! i))
     \<and> ((\<forall>e\<in>set sched. startTime e \<noteq> None) \<and> (\<forall>e\<in>set out. bufferFits e)
          \<longrightarrow> (\<forall>i. Suc i < length out \<longrightarrow> gapOk (out ! i) (out ! Suc i)))"
proof -
  from assms(1) have l: "bufferLoop [] sched = Inr out" by (simp add: addBufferTime_def)
  from bufferLoop_shifted[OF l] have sh: "list_all2 shifted sched out" by simp
  have g: "\<forall>i. Suc i < length out \<longrightarrow> gapOk (out ! i) (out ! Suc i)"
    if v: "\<forall>e\<in>set sched. startTime e \<noteq> None" and f: "\<forall>e\<in>set out. bufferFits e"
  proof -
    from bufferLoop_gap[OF l _ v f] have "successively gapOk out" by simp
    then show ?thesis using successively_nth by blast
  qed
  from sh have len: "length out = length sched" by (simp add: list_all2_lengthD)
  from sh have "\<forall>i<length out. duration (out ! i) = duration (sched ! i)"
    by (auto simp: list_all2_conv_all_nth shifted_duration)
  with g len show ?thesis by blast
qed

lemma addBufferTime_buffer_invariant_sample:
  "addBufferTime [slot ''a'' 0 60, slot ''b'' 50 80, slot ''c'' 200 220] =
     Inr [slot ''a'' 0 60, slot ''b'' 75 105, slot ''c'' 200 220]
   \<and> gapOk (slot ''a'' 0 60) (slot ''b'' 75 105)
   \<and> gapOk (slot ''b'' 75 105) (slot ''c'' 200 220)
   \<and> duration (slot ''b'' 75 105) = duration (slot ''b'' 50 80)"
proof -
  let ?in = "[slot ''a'' 0 60, slot ''b'' 50 80, slot ''c'' 200 220]"
  let ?out = "[slot ''a'' 0 60, slot ''b'' 75 105, slot ''c'' 200 220]"
  have h2: "\<forall>e\<in>set ?in. startTime e \<noteq> None" by (simp add: slot_def)
  have h3: "\<forall>e\<in>set ?out. bufferFits e"
    by (simp add: bufferFits_def slot_def addHours_buffer newDate_def)
       (simp add: minutes_def maxTime_def)
  from addBufferTime_buffer_invariant[OF addBufferTime_sample] h2 h3
  have g: "\<forall>i. Suc i < length ?out \<longrightarrow> gapOk (?out ! i) (?out ! Suc i)"
    and d: "\<forall>i<length ?out. duration (?out ! i) = duration (?in ! i)"
    by blast+
  from g[rule_format, of 0] g[rule_format, of 1] d[rule_format, of 1] addBufferTime_sample
  show ?thesis by simp
qed

lemma productive_slots_drop_times:
  "optimizeForProductiveTimeSlots [slot ''m'' 0 60, (slot ''h'' 30 90)\<lparr>priority := ''High''\<rparr>]
       [learnedSlot ''9:00-10:00'' 2]
     = [untimedHigh, slot ''m'' 0 60]"
  by (simp add: optimizeForProductiveTimeSlots_def priorityWeight_def slot_def learnedSlot_def
      untimedHigh_def enumerate_eq_zip upt_rec)

lemma addBufferTime_untimed_entry:
  "addBufferTime [untimedHigh, slot ''m'' 0 60] = Inr [untimedHigh, slot ''m'' 0 60]"
  by (simp add: buffer_eval addHours_def untimedHigh_def)

text \<open>
  C3.  The buffer invariant fails after optimisation once a productive slot has been
  learned.  The plan holds a Medium entry from 0:00 to 1:00 and a High entry from 0:30 to
  1:30, and the learned slots are the one slot \<^verbatim>\<open>{ time: '9:00-10:00', weight: 2 }\<close>
  as the review agent stores it.  Productive-slot reassignment puts the High entry first
  and gives it the slot's \<^verbatim>\<open>start\<close> and \<^verbatim>\<open>end\<close>, which the slot does not have;
  the buffer pass then returns that schedule as it is, and the Medium entry, which
  follows, does not start 15 minutes after the end of the High entry, which has no times
  left (it lasted 60 minutes in the plan).
\<close>

theorem learned_slot_breaks_buffer:
  "addBufferTime
      (optimizeForProductiveTimeSlots
         [slot ''m'' 0 60, (slot ''h'' 30 90)\<lparr>priority := ''High''\<rparr>]
         [learnedSlot ''9:00-10:00'' 2])
     = Inr [untimedHigh, slot ''m'' 0 60]
   \<and> \<not> gapOk untimedHigh (slot ''m'' 0 60)
   \<and> duration ((slot ''h'' 30 90)\<lparr>priority := ''High''\<rparr>) = Some (minutes 60)
   \<and> duration untimedHigh = None"
proof -
  have g: "\<not> gapOk untimedHigh (slot ''m'' 0 60)"
    by (simp add: gapOk_def untimedHigh_def)
  have d: "duration ((slot ''h'' 30 90)\<lparr>priority := ''High''\<rparr>) = Some (minutes 60)"
    by (simp add: duration_def dateDiff_def slot_def minutes_def)
  have u: "duration untimedHigh = None"
    by (simp add: duration_def dateDiff_def untimedHigh_def)
  from g d u show ?thesis
    unfolding productive_slots_drop_times addBufferTime_untimed_entry by (intro conjI refl)
qed

text \<open>
  C10.  When the buffer-insertion pass returns, its output has as many entries as its
  input, the entry at each position is the input entry of that position with at most its
  two times changed, and no start time is earlier than it was in the input.
\<close>

theorem addBufferTime_keeps_entries:
  assumes "addBufferTime sched = Inr out"
  shows "length out = length sched
     \<and> (\<forall>i<length sched. sameTask (sched ! i) (out ! i) \<and> notEarlier (sched ! i) (out ! i))"
proof -
  from assms(1) have l: "bufferLoop [] sched = Inr out" by (simp add: addBufferTime_def)
  from bufferLoop_shifted[OF l] have sh: "list_all2 shifted sched out" by simp
  then show ?thesis
    by (auto simp: list_all2_conv_all_nth shifted_sameTask shifted_notEarlier)
qed

theorem addBufferTime_keeps_entries_witness:
  "addBufferTime [slot ''a'' 0 60, slot ''b'' 50 80] = Inr [slot ''a'' 0 60, slot ''b'' 75 105]
   \<and> sameTask (slot ''b'' 50 80) (slot ''b'' 75 105)
   \<and> notEarlier (slot ''b'' 50 80) (slot ''b'' 75 105)"
proof -
  have ev: "addBufferTime [slot ''a'' 0 60, slot ''b'' 50 80] =
      Inr [slot ''a'' 0 60, slot ''b'' 75 105]"
    by (simp add: buffer_eval)
  from addBufferTime_keeps_entries[OF ev, THEN conjunct2, rule_format, of 1] ev
  show ?thesis by simp
qed

section \<open>Properties of conflict resolution\<close>



lemma resolveLoop_append:
  "resolveLoop pd f (xs @ ys) s rs l =
     (case resolveLoop pd f xs s rs l of
        (Inl e, l') \<Rightarrow> (Inl e, l')
      | (Inr p, l') \<Rightarrow> resolveLoop pd f ys (resolvedSchedule p) (resolvedConflicts p) l')"
  by (induction xs arbitrary: s rs l) (auto split: option.splits sum.splits)

lemma resolveLoop_Inr:
  "resolveLoop pd f cs s rs l = (Inr p, l') \<Longrightarrow>
     \<exists>new. resolvedConflicts p = rs @ new \<and> map originalConflict new = cs"
proof (induction cs arbitrary: s rs l)
  case Nil
  then show ?case by auto
next
  case (Cons c cs)
  have step: "\<exists>new. resolvedConflicts p = rs @ new \<and> map originalConflict new = c # cs"
    if "resolveLoop pd f cs s' (rs @ [rc]) l'' = (Inr p, l')" "originalConflict rc = c"
    for s' rc l''
  proof -
    from Cons.IH[OF that(1)] obtain new where "resolvedConflicts p = (rs @ [rc]) @ new"
      "map originalConflict new = cs" by blast
    with that(2) have "resolvedConflicts p = rs @ (rc # new)
        \<and> map originalConflict (rc # new) = c # cs" by simp
    then show ?thesis by (rule exI[where x = "rc # new"])
  qed
  show ?case
  proof (cases "f c s")
    case None
    with Cons.prems have "resolveLoop pd f cs s
        (rs @ [\<lparr>originalConflict = c, appliedResolution = None, applied = False\<rparr>]) l
        = (Inr p, l')" by simp
    from step[OF this] show ?thesis by simp
  next
    case (Some r)
    show ?thesis
    proof (cases "confident r")
      case False
      with Cons.prems Some have "resolveLoop pd f cs s
          (rs @ [\<lparr>originalConflict = c, appliedResolution = None, applied = False\<rparr>]) l
          = (Inr p, l')" by simp
      from step[OF this] show ?thesis by simp
    next
      case True
      with Cons.prems Some obtain s' where
        "resolveLoop pd f cs s' (rs @ [\<lparr>originalConflict = c, appliedResolution = Some r,
            applied = True\<rparr>]) (l @ [conflictRow c r]) = (Inr p, l')"
        by (auto split: sum.splits)
      from step[OF this] show ?thesis by simp
    qed
  qed
qed

lemma confident_iff: "confident r \<longleftrightarrow> greaterThan (confidence r) (7 / 10)"
  by (simp add: confident_def conflictThreshold_def)

text \<open>
  What the loop does at the conflict of position \<open>i\<close>: \<open>pre\<close> and \<open>l1\<close> are the
  result and the log after the conflicts before it, \<open>post\<close> and \<open>l2\<close> those after
  it.
\<close>

lemma resolveLoop_step:
  assumes ret: "resolveLoop pd f cs s0 [] l = (Inr out, l')" and i: "i < length cs"
  shows "\<exists>pre post l1 l2.
      resolveLoop pd f (take i cs) s0 [] l = (Inr pre, l1)
    \<and> resolveLoop pd f (take (Suc i) cs) s0 [] l = (Inr post, l2)
    \<and> (i = 0 \<longrightarrow> l1 = l) \<and> (Suc i = length cs \<longrightarrow> l2 = l')
    \<and> length (resolvedConflicts out) = length cs
    \<and> originalConflict (resolvedConflicts out ! i) = cs ! i
    \<and> (case f (cs ! i) (resolvedSchedule pre) of
          None \<Rightarrow> \<not> applied (resolvedConflicts out ! i)
                  \<and> appliedResolution (resolvedConflicts out ! i) = None
                  \<and> resolvedSchedule post = resolvedSchedule pre \<and> l2 = l1
        | Some r \<Rightarrow>
            if greaterThan (confidence r) (7 / 10)
            then applied (resolvedConflicts out ! i)
               \<and> appliedResolution (resolvedConflicts out ! i) = Some r
               \<and> applyConflictResolution pd (resolvedSchedule pre) r = Inr (resolvedSchedule post)
               \<and> l2 = l1 @ [conflictRow (cs ! i) r]
            else \<not> applied (resolvedConflicts out ! i)
               \<and> appliedResolution (resolvedConflicts out ! i) = None
               \<and> resolvedSchedule post = resolvedSchedule pre \<and> l2 = l1)"
proof -
  let ?c = "cs ! i" and ?rest = "drop (Suc i) cs"
  from i have split: "cs = take i cs @ (?c # ?rest)" by (simp add: id_take_nth_drop)
  from i have split': "take (Suc i) cs = take i cs @ [?c]" by (simp add: take_Suc_conv_app_nth)
  from resolveLoop_Inr[OF ret] have all: "map originalConflict (resolvedConflicts out) = cs"
    by auto
  then have len: "length (resolvedConflicts out) = length cs"
    by (metis length_map)
  from all i have orig: "originalConflict (resolvedConflicts out ! i) = cs ! i"
    by (metis len nth_map)
  from ret have "resolveLoop pd f (take i cs @ (?c # ?rest)) s0 [] l = (Inr out, l')"
    using split by simp
  then obtain pre l1 where pre: "resolveLoop pd f (take i cs) s0 [] l = (Inr pre, l1)"
    and tail: "resolveLoop pd f (?c # ?rest) (resolvedSchedule pre) (resolvedConflicts pre) l1
        = (Inr out, l')"
    unfolding resolveLoop_append by (auto split: prod.splits sum.splits)
  from resolveLoop_Inr[OF pre] i have lpre: "length (resolvedConflicts pre) = i"
    by (metis append_Nil length_map length_take min.absorb2 less_imp_le_nat)
  have first: "i = 0 \<longrightarrow> l1 = l" using pre by auto
  have post_eq: "resolveLoop pd f (take (Suc i) cs) s0 [] l =
      resolveLoop pd f [?c] (resolvedSchedule pre) (resolvedConflicts pre) l1"
    unfolding split' resolveLoop_append pre by simp
  have whole: "l2 = l'" if "Suc i = length cs"
      "resolveLoop pd f (take (Suc i) cs) s0 [] l = (Inr post, l2)" for post l2
    using that ret by simp
  have nth_out: "resolvedConflicts out ! i = rc"
    if "resolveLoop pd f ?rest s' (resolvedConflicts pre @ [rc]) l'' = (Inr out, l')" for s' rc l''
  proof -
    from resolveLoop_Inr[OF that] obtain new where
      "resolvedConflicts out = (resolvedConflicts pre @ [rc]) @ new" by blast
    with lpre show ?thesis by (simp add: nth_append)
  qed
  show ?thesis
  proof (cases "f ?c (resolvedSchedule pre)")
    case None
    let ?rc = "\<lparr>originalConflict = ?c, appliedResolution = None, applied = False\<rparr>"
    from tail None have "resolveLoop pd f ?rest (resolvedSchedule pre) (resolvedConflicts pre @ [?rc]) l1
        = (Inr out, l')" by simp
    from nth_out[OF this] have n: "resolvedConflicts out ! i = ?rc" .
    have p: "resolveLoop pd f (take (Suc i) cs) s0 [] l =
       (Inr \<lparr>resolvedSchedule = resolvedSchedule pre,
              resolvedConflicts = resolvedConflicts pre @ [?rc]\<rparr>, l1)"
      unfolding post_eq using None by simp
    with pre len orig n None first whole[OF _ p] show ?thesis by simp
  next
    case (Some r)
    show ?thesis
    proof (cases "confident r")
      case False
      let ?rc = "\<lparr>originalConflict = ?c, appliedResolution = None, applied = False\<rparr>"
      from tail Some False
      have "resolveLoop pd f ?rest (resolvedSchedule pre) (resolvedConflicts pre @ [?rc]) l1
          = (Inr out, l')" by simp
      from nth_out[OF this] have n: "resolvedConflicts out ! i = ?rc" .
      have p: "resolveLoop pd f (take (Suc i) cs) s0 [] l =
         (Inr \<lparr>resolvedSchedule = resolvedSchedule pre,
                resolvedConflicts = resolvedConflicts pre @ [?rc]\<rparr>, l1)"
        unfolding post_eq using Some False by simp
      with pre len orig n Some False first whole[OF _ p] show ?thesis
        by (simp add: confident_iff)
    next
      case True
      let ?rc = "\<lparr>originalConflict = ?c, appliedResolution = Some r, applied = True\<rparr>"
      from tail Some True obtain s' where ap: "applyConflictResolution pd (resolvedSchedule pre) r = Inr s'"
        and "resolveLoop pd f ?rest s' (resolvedConflicts pre @ [?rc]) (l1 @ [conflictRow ?c r])
          = (Inr out, l')"
        by (auto split: sum.splits)
      from nth_out[OF this(2)] have n: "resolvedConflicts out ! i = ?rc" .
      have p: "resolveLoop pd f (take (Suc i) cs) s0 [] l =
         (Inr \<lparr>resolvedSchedule = s',
                resolvedConflicts = resolvedConflicts pre @ [?rc]\<rparr>, l1 @ [conflictRow ?c r])"
        unfolding post_eq using Some True ap by simp
      with pre len orig n Some True ap first whole[OF _ p] show ?thesis
        by (simp add: confident_iff)
    qed
  qed
qed

lemmas sample_defs = resolveConflicts_def samplePlan_def sampleOracle_def overlapConflict_def
  weatherConflict_def confident_def conflictThreshold_def moveLater_def
  applyConflictResolution_def entryA_def entryB_def entryC_def movedB_def Let_def dateDiff_def
  numAdd_def newDate_def isoStringOf_def dateOf_def sampleParse_def minutes_def maxTime_def
  sampleConflicts_def sampleResolved_def sampleRow_def conflictRow_def




text \<open>
  C4 (as amended).  When \<^verbatim>\<open>resolveConflicts\<close> returns, what the conflict at each
  position \<open>i\<close> adds to the resolution log is decided by the oracle's answer to it: with
  \<open>l1\<close> the log after the conflicts before it (the log before the call for the first)
  and \<open>l2\<close> the log after it (the final log for the last), an answer with confidence
  strictly above 0.7 appends exactly one row, holding the conflict's joined task names (or
  \<open>unknown\<close>), its type, the conflict itself, and the resolution's new time and reason;
  a null answer or one whose confidence is not above 0.7 appends nothing.
\<close>

theorem resolveConflicts_logs_applied_only:
  assumes ret: "resolveConflicts parseDate analyzeConflict rlog plan = (Inr out, rlog')"
    and cs: "conflicts_detected plan = Some cs" and i: "i < length cs"
  shows "\<exists>pre post l1 l2.
      resolveConflicts parseDate analyzeConflict rlog
          (plan\<lparr>conflicts_detected := Some (take i cs)\<rparr>) = (Inr pre, l1)
    \<and> resolveConflicts parseDate analyzeConflict rlog
          (plan\<lparr>conflicts_detected := Some (take (Suc i) cs)\<rparr>) = (Inr post, l2)
    \<and> (i = 0 \<longrightarrow> l1 = rlog) \<and> (Suc i = length cs \<longrightarrow> l2 = rlog')
    \<and> l2 = l1 @
        (case analyzeConflict (cs ! i) (resolvedSchedule pre) of
           None \<Rightarrow> []
         | Some r \<Rightarrow>
             if greaterThan (confidence r) (7 / 10)
             then [\<lparr>task_id = (case tasks (cs ! i) of
                                 None \<Rightarrow> ''unknown''
                               | Some ts \<Rightarrow> if join '','' ts = [] then ''unknown''
                                            else join '','' ts),
                     conflict_type = conflictType (cs ! i),
                     original_time = cs ! i,
                     resolved_time = newTime r,
                     row_reason = resolutionReason r\<rparr>]
             else [])"
proof -
  from ret obtain s0 where s0: "schedule plan = Some s0"
    by (auto simp: resolveConflicts_def split: option.splits)
  with ret cs have loop: "resolveLoop parseDate analyzeConflict cs s0 [] rlog = (Inr out, rlog')"
    by (simp add: resolveConflicts_def)
  have run: "resolveConflicts parseDate analyzeConflict rlog (plan\<lparr>conflicts_detected := Some xs\<rparr>)
      = resolveLoop parseDate analyzeConflict xs s0 [] rlog" for xs
    using s0 by (simp add: resolveConflicts_def)
  from resolveLoop_step[OF loop i] obtain pre post l1 l2 where
    st: "resolveLoop parseDate analyzeConflict (take i cs) s0 [] rlog = (Inr pre, l1)"
      "resolveLoop parseDate analyzeConflict (take (Suc i) cs) s0 [] rlog = (Inr post, l2)"
      "i = 0 \<longrightarrow> l1 = rlog" "Suc i = length cs \<longrightarrow> l2 = rlog'"
    and c: "(case analyzeConflict (cs ! i) (resolvedSchedule pre) of
          None \<Rightarrow> \<not> applied (resolvedConflicts out ! i)
                  \<and> appliedResolution (resolvedConflicts out ! i) = None
                  \<and> resolvedSchedule post = resolvedSchedule pre \<and> l2 = l1
        | Some r \<Rightarrow>
            if greaterThan (confidence r) (7 / 10)
            then applied (resolvedConflicts out ! i)
               \<and> appliedResolution (resolvedConflicts out ! i) = Some r
               \<and> applyConflictResolution parseDate (resolvedSchedule pre) r
                   = Inr (resolvedSchedule post)
               \<and> l2 = l1 @ [conflictRow (cs ! i) r]
            else \<not> applied (resolvedConflicts out ! i)
               \<and> appliedResolution (resolvedConflicts out ! i) = None
               \<and> resolvedSchedule post = resolvedSchedule pre \<and> l2 = l1)"
    by blast
  from c have "l2 = l1 @
        (case analyzeConflict (cs ! i) (resolvedSchedule pre) of
           None \<Rightarrow> []
         | Some r \<Rightarrow>
             if greaterThan (confidence r) (7 / 10)
             then [\<lparr>task_id = (case tasks (cs ! i) of
                                 None \<Rightarrow> ''unknown''
                               | Some ts \<Rightarrow> if join '','' ts = [] then ''unknown''
                                            else join '','' ts),
                     conflict_type = conflictType (cs ! i),
                     original_time = cs ! i,
                     resolved_time = newTime r,
                     row_reason = resolutionReason r\<rparr>]
             else [])"
    by (auto simp: conflictRow_def split: option.splits if_splits)
  with st show ?thesis unfolding run by blast
qed

theorem resolveConflicts_logs_applied_only_witness:
  "resolveConflicts sampleParse sampleOracle [] (samplePlan sampleConflicts) =
     (Inr sampleResolved,
      [\<lparr>task_id = ''a,b'', conflict_type = ''overlap'',
         original_time = \<lparr>conflictType = ''overlap'', tasks = Some [''a'', ''b''],
                           severity = ''high''\<rparr>,
         resolved_time = IsoTime (minutes 300), row_reason = ''overlap''\<rparr>])
   \<and> conflicts_detected (samplePlan sampleConflicts) = Some sampleConflicts
   \<and> 1 < length sampleConflicts
   \<and> sampleOracle (sampleConflicts ! 1) [entryA, entryB, entryC] = Some (moveLater (9 / 10))
   \<and> (\<exists>pre post l1 l2.
      resolveConflicts sampleParse sampleOracle []
          ((samplePlan sampleConflicts)\<lparr>conflicts_detected := Some (take 1 sampleConflicts)\<rparr>)
        = (Inr pre, l1)
    \<and> resolveConflicts sampleParse sampleOracle []
          ((samplePlan sampleConflicts)\<lparr>conflicts_detected := Some (take (Suc 1) sampleConflicts)\<rparr>)
        = (Inr post, l2)
    \<and> (1 = (0::nat) \<longrightarrow> l1 = [])
    \<and> (Suc 1 = length sampleConflicts \<longrightarrow>
          l2 = [\<lparr>task_id = ''a,b'', conflict_type = ''overlap'',
                  original_time = \<lparr>conflictType = ''overlap'', tasks = Some [''a'', ''b''],
                                    severity = ''high''\<rparr>,
                  resolved_time = IsoTime (minutes 300), row_reason = ''overlap''\<rparr>])
    \<and> l2 = l1 @
        (case sampleOracle (sampleConflicts ! 1) (resolvedSchedule pre) of
           None \<Rightarrow> []
         | Some r \<Rightarrow>
             if greaterThan (confidence r) (7 / 10)
             then [\<lparr>task_id = (case tasks (sampleConflicts ! 1) of
                                 None \<Rightarrow> ''unknown''
                               | Some ts \<Rightarrow> if join '','' ts = [] then ''unknown''
                                            else join '','' ts),
                     conflict_type = conflictType (sampleConflicts ! 1),
                     original_time = sampleConflicts ! 1,
                     resolved_time = newTime r,
                     row_reason = resolutionReason r\<rparr>]
             else []))"
proof -
  have ev: "resolveConflicts sampleParse sampleOracle [] (samplePlan sampleConflicts) =
     (Inr sampleResolved,
      [\<lparr>task_id = ''a,b'', conflict_type = ''overlap'',
         original_time = \<lparr>conflictType = ''overlap'', tasks = Some [''a'', ''b''],
                           severity = ''high''\<rparr>,
         resolved_time = IsoTime (minutes 300), row_reason = ''overlap''\<rparr>])"
    by (simp add: sample_defs)
  have cs: "conflicts_detected (samplePlan sampleConflicts) = Some sampleConflicts"
    by (simp add: samplePlan_def)
  have i: "1 < length sampleConflicts"
    by (simp add: sampleConflicts_def)
  have o1: "sampleOracle (sampleConflicts ! 1) [entryA, entryB, entryC] = Some (moveLater (9 / 10))"
    by (simp add: sampleOracle_def sampleConflicts_def overlapConflict_def)
  note g = resolveConflicts_logs_applied_only[OF ev cs i]
  from ev cs i o1 g show ?thesis
    by (intro conjI)
qed

text \<open>
  A rejected resolution leaves no row: the oracle answers the weather conflict with
  confidence exactly 0.7, the conflict is returned as not applied, and the log stays
  empty.
\<close>

theorem rejected_resolution_not_logged:
  "resolveConflicts sampleParse sampleOracle [] (samplePlan [weatherConflict]) =
     (Inr \<lparr>resolvedSchedule = [entryA, entryB, entryC],
            resolvedConflicts =
              [\<lparr>originalConflict = weatherConflict, appliedResolution = None,
                 applied = False\<rparr>]\<rparr>,
      [])"
  by (simp add: resolveConflicts_def samplePlan_def sampleOracle_def weatherConflict_def
      confident_def conflictThreshold_def moveLater_def)

section \<open>Properties of the completion rates\<close>

lemma countTask_keys:
  "set (map fst (countTask b p stats)) = insert p (set (map fst stats))"
  by (induction b p stats rule: countTask.induct) auto

lemma countTask_distinct: "distinct (map fst stats) \<Longrightarrow> distinct (map fst (countTask b p stats))"
proof (induction stats)
  case Nil
  then show ?case by simp
next
  case (Cons kv stats)
  obtain k st where kv: "kv = (k, st)" by (cases kv)
  from Cons show ?case
    using countTask_keys[of b p stats] by (auto simp: kv)
qed

lemma countTask_map_of:
  "map_of (countTask b p stats) = (map_of stats)(p \<mapsto> bumped b (map_of stats p))"
  by (induction b p stats rule: countTask.induct) (auto simp: bumped_def fun_eq_iff)

lemma count_fold:
  "distinct (map fst acc) \<Longrightarrow>
   distinct (map fst (foldl (\<lambda>stats t. countTask (C t) (prio t) stats) acc xs))
   \<and> map_of (foldl (\<lambda>stats t. countTask (C t) (prio t) stats) acc xs) p =
     (let n = length (filter (\<lambda>t. prio t = p) xs);
          k = length (filter (\<lambda>t. prio t = p \<and> C t) xs)
      in case map_of acc p of
           None \<Rightarrow> if n = 0 then None else Some \<lparr>completed = k, total = n\<rparr>
         | Some st \<Rightarrow> Some \<lparr>completed = completed st + k, total = total st + n\<rparr>)"
proof (induction xs arbitrary: acc)
  case Nil
  then show ?case by (auto split: option.splits)
next
  case (Cons x xs)
  from Cons.prems have d: "distinct (map fst (countTask (C x) (prio x) acc))"
    by (rule countTask_distinct)
  from Cons.IH[OF d] show ?case
    by (auto simp: countTask_map_of bumped_def Let_def split: option.splits)
qed

lemma blendRate_other: "p \<noteq> k \<Longrightarrow> blendRate upd (k, st) p = upd p"
  by (auto simp: blendRate_def Let_def split: option.splits)

lemma blendRate_local: "upd p = upd' p \<Longrightarrow> blendRate upd (p, st) p = blendRate upd' (p, st) p"
  by (auto simp: blendRate_def Let_def split: option.splits)

lemma blend_fold:
  "distinct (map fst kvs) \<Longrightarrow>
   foldl blendRate upd kvs p =
     (case map_of kvs p of None \<Rightarrow> upd p | Some st \<Rightarrow> blendRate upd (p, st) p)"
proof (induction kvs arbitrary: upd)
  case Nil
  then show ?case by simp
next
  case (Cons kv kvs)
  obtain k st where kv: "kv = (k, st)" by (cases kv)
  from Cons.prems have d: "distinct (map fst kvs)" and nk: "k \<notin> fst ` set kvs"
    by (auto simp: kv)
  from nk have none: "map_of kvs k = None"
    by (simp add: map_of_eq_None_iff)
  show ?case
  proof (cases "p = k")
    case True
    with Cons.IH[OF d, of "blendRate upd (k, st)"] none show ?thesis
      by (simp add: kv)
  next
    case False
    then have o: "blendRate upd (k, st) p = upd p" by (rule blendRate_other)
    show ?thesis
      using Cons.IH[OF d, of "blendRate upd (k, st)"] False o
        blendRate_local[of "blendRate upd (k, st)" p upd]
      by (auto simp: kv split: option.splits)
  qed
qed

lemma updateCompletionRates_at:
  "updateCompletionRates current prio perf p =
     (let cur = (case current of None \<Rightarrow> Map.empty | Some m \<Rightarrow> m) in
      if p \<in> prio ` set (completedTasks perf @ missedTasks perf)
      then Some (case cur p of
                   Some v \<Rightarrow> if v \<noteq> 0 then v * (7 / 10) + periodRate prio perf p * (3 / 10)
                             else periodRate prio perf p
                 | None \<Rightarrow> periodRate prio perf p)
      else cur p)"
proof -
  let ?all = "completedTasks perf @ missedTasks perf"
  let ?stats = "priorityStatsOf prio (completedTasks perf) (missedTasks perf)"
  let ?n = "length (filter (\<lambda>t. prio t = p) ?all)"
  let ?k = "length (filter (\<lambda>t. prio t = p \<and> t \<in> set (completedTasks perf)) ?all)"
  have cf: "distinct (map fst ?stats)
     \<and> map_of ?stats p = (if ?n = 0 then None else Some \<lparr>completed = ?k, total = ?n\<rparr>)"
    using count_fold[of "[]" "\<lambda>t. t \<in> set (completedTasks perf)" prio ?all p]
    by (simp add: priorityStatsOf_def Let_def)
  have mem: "?n = 0 \<longleftrightarrow> p \<notin> prio ` set ?all"
    by (auto simp: filter_empty_conv)
  have "updateCompletionRates current prio perf p =
      (case map_of ?stats p of
         None \<Rightarrow> (case current of None \<Rightarrow> Map.empty | Some m \<Rightarrow> m) p
       | Some st \<Rightarrow> blendRate (case current of None \<Rightarrow> Map.empty | Some m \<Rightarrow> m) (p, st) p)"
    unfolding updateCompletionRates_def using cf by (simp add: blend_fold)
  then show ?thesis
    using cf mem
    by (auto simp: Let_def blendRate_def periodRate_def split: option.splits)
qed

lemma updateCompletionRates_fixed_point:
  assumes "p \<in> prio ` set (completedTasks perf @ missedTasks perf)"
    and "current = Some cur" "cur p = Some r" "periodRate prio perf p = r"
  shows "updateCompletionRates current prio perf p = Some r"
  using assms by (simp add: updateCompletionRates_at Let_def algebra_simps)

lemma half_then_full_gives_65_percent:
  "updateCompletionRates (Some [''High'' \<mapsto> 1 / 2]) allHigh oneHighDone ''High'' = Some (13 / 20)"
  by (simp add: updateCompletionRates_def priorityStatsOf_def blendRate_def Let_def
      allHigh_def oneHighDone_def)

text \<open>
  C7.  The update blends with 0.7 and 0.3 only when the stored rate is non-zero.  With a
  stored High rate of 0 and a period in which the single High task was completed (period
  rate 1), the stored rate becomes 1, not \<open>0.7 * 0 + 0.3 * 1 = 0.3\<close>.
\<close>

theorem updateCompletionRates_zero_prior:
  "updateCompletionRates (Some [''High'' \<mapsto> 0]) allHigh oneHighDone ''High'' = Some 1
   \<and> periodRate allHigh oneHighDone ''High'' = 1
   \<and> updateCompletionRates (Some [''High'' \<mapsto> 0]) allHigh oneHighDone ''High''
       \<noteq> Some (0 * (7 / 10) + periodRate allHigh oneHighDone ''High'' * (3 / 10))"
  by (simp add: updateCompletionRates_def priorityStatsOf_def blendRate_def Let_def
      periodRate_def allHigh_def oneHighDone_def)

section \<open>Properties of preference adaptation\<close>

lemma adaptMaxDailyTasks_Num:
  assumes "3 \<le> m" "m \<le> 12"
  shows "(case adaptMaxDailyTasks rate (Num m) of None \<Rightarrow> Num m | Some v \<Rightarrow> v) =
      Num (if rate < 7 / 10 then max 3 (m - 1) else if rate > 9 / 10 then min 12 (m + 1) else m)"
  using assms by (auto simp: adaptMaxDailyTasks_def)

lemma adaptMaxDailyTasks_unset:
  "adaptMaxDailyTasks rate Undefined = None"
  "rate > 9 / 10 \<Longrightarrow> adaptMaxDailyTasks rate Null = Some (Num 9)"
  by (simp_all add: adaptMaxDailyTasks_def)

lemma adapt_step:
  assumes "maxDailyOf stored = Num m" "3 \<le> m" "m \<le> 12"
  shows "maxDailyOf (adaptUserPreferences now stored perf) =
      Num (if completionRate perf < 7 / 10 then max 3 (m - 1)
           else if completionRate perf > 9 / 10 then min 12 (m + 1) else m)"
proof -
  from assms(1) obtain p where p: "stored = Some p" "maxDailyTasks p = Num m"
    by (auto simp: maxDailyOf_def split: option.splits)
  have "maxDailyOf (adaptUserPreferences now stored perf) =
      (case adaptMaxDailyTasks (completionRate perf) (Num m) of None \<Rightarrow> Num m | Some v \<Rightarrow> v)"
    by (auto simp: adaptUserPreferences_def Let_def p maxDailyOf_def split: option.splits)
  with adaptMaxDailyTasks_Num[OF assms(2,3)] show ?thesis by simp
qed

lemma six_of_eight_leaves_unchanged:
  "completionRateOf 6 2 = 3 / 4"
  "maxDailyOf (adaptUserPreferences now (prefsWith 8) (day (completionRateOf 6 2))) = Num 8"
  by (simp_all add: completionRateOf_def adaptUserPreferences_def adaptMaxDailyTasks_def
      Let_def prefsWith_def day_def maxDailyOf_def noPreferences_def)

lemma adapt_step_range:
  assumes "maxDailyOf stored = Num m" "3 \<le> m" "m \<le> 12"
  shows "\<exists>m'. maxDailyOf (adaptUserPreferences now stored perf) = Num m' \<and> 3 \<le> m' \<and> m' \<le> 12"
  using adapt_step[OF assms, of now perf] assms(2,3) by auto

lemma adaptAll_range:
  assumes "maxDailyOf stored = Num m" "3 \<le> m" "m \<le> 12"
  shows "\<exists>m'. maxDailyOf (adaptAll stored calls) = Num m' \<and> 3 \<le> m' \<and> m' \<le> 12"
  using assms
proof (induction calls arbitrary: stored m)
  case Nil
  then show ?case by (simp add: adaptAll_def)
next
  case (Cons c calls)
  obtain now perf where c: "c = (now, perf)" by (cases c)
  from adapt_step_range[OF Cons.prems, of now perf] obtain m1 where
    m1: "maxDailyOf (adaptUserPreferences now stored perf) = Num m1" "3 \<le> m1" "m1 \<le> 12" by blast
  from Cons.IH[OF m1] show ?case by (simp add: adaptAll_def c)
qed

text \<open>
  When the stored preferences hold a \<open>maxDailyTasks\<close> between 3 and 12, it is again a
  number between 3 and 12 after any sequence of adaptation calls, whatever the days'
  figures; and one call with a completion rate below 0.7 lowers it by 1 but not below 3,
  one with a rate above 0.9 raises it by 1 but not above 12, and any other rate leaves it
  as it is.
\<close>

lemma maxDailyTasks_stays_in_range:
  assumes "maxDailyOf stored = Num m" "3 \<le> m" "m \<le> 12"
  shows "(\<exists>m'. maxDailyOf (adaptAll stored calls) = Num m' \<and> 3 \<le> m' \<and> m' \<le> 12)
     \<and> maxDailyOf (adaptUserPreferences now stored perf) =
         Num (if completionRate perf < 7 / 10 then max 3 (m - 1)
              else if completionRate perf > 9 / 10 then min 12 (m + 1) else m)"
  using adaptAll_range[OF assms] adapt_step[OF assms] by blast

lemma maxDailyTasks_stays_in_range_sample:
  "maxDailyOf (prefsWith 4) = Num 4 \<and> (3::rat) \<le> 4 \<and> (4::rat) \<le> 12
   \<and> maxDailyOf (adaptAll (prefsWith 4) [(0, day (1 / 2)), (1, day (1 / 2)), (2, day (3 / 4))]) = Num 3
   \<and> maxDailyOf (adaptUserPreferences 0 (prefsWith 4) (day 1)) = Num 5"
proof -
  have h: "maxDailyOf (prefsWith 4) = Num 4" by (simp add: maxDailyOf_def prefsWith_def)
  have e: "maxDailyOf (adaptAll (prefsWith 4) [(0, day (1 / 2)), (1, day (1 / 2)), (2, day (3 / 4))]) = Num 3"
    by (simp add: adaptAll_def adaptUserPreferences_def adaptMaxDailyTasks_def Let_def
        prefsWith_def day_def maxDailyOf_def noPreferences_def)
  from maxDailyTasks_stays_in_range
      [OF h, of "[(0, day (1 / 2)), (1, day (1 / 2)), (2, day (3 / 4))]" 0 "day 1"] h e
  show ?thesis
    by (simp add: day_def)
qed

text \<open>An unset \<open>maxDailyTasks\<close> stays unset, whatever the days' figures.\<close>

lemma adapt_step_unset:
  assumes "maxDailyOf stored = Undefined"
  shows "maxDailyOf (adaptUserPreferences now stored perf) = Undefined"
  using assms
  by (auto simp: adaptUserPreferences_def adaptMaxDailyTasks_def Let_def maxDailyOf_def
      noPreferences_def split: option.splits)

lemma adaptAll_unset:
  assumes "maxDailyOf stored = Undefined"
  shows "maxDailyOf (adaptAll stored calls) = Undefined"
  using assms
proof (induction calls arbitrary: stored)
  case Nil
  then show ?case by (simp add: adaptAll_def)
next
  case (Cons c calls)
  obtain now perf where c: "c = (now, perf)" by (cases c)
  from Cons.IH[OF adapt_step_unset[OF Cons.prems, of now perf]] show ?case
    by (simp add: adaptAll_def c)
qed

text \<open>
  C8.  The default base 8 is not applied to an unset \<open>maxDailyTasks\<close>.  With nothing
  stored under \<^verbatim>\<open>user_preferences\<close> and a day with completion rate 1, one productive
  hour and an average duration of 30 minutes, the call stores the hour, the duration and
  the time of adaptation and leaves \<open>maxDailyTasks\<close> unset, not 9: the guard
  \<^verbatim>\<open>currentPrefs.maxDailyTasks < 12\<close> is false for \<^verbatim>\<open>undefined\<close>, so the branch
  that holds the default is not entered, and a second such day changes nothing.  The
  default is reached only for a stored \<^verbatim>\<open>null\<close> or 0, which the guard lets through.
\<close>

theorem maxDailyTasks_unset_not_defaulted:
  "adaptUserPreferences 0 None (goodDay 1) =
       Some \<lparr>peakProductivityHours = Some [''9:00-10:00''], preferredTaskDuration = Some 30,
             maxDailyTasks = Undefined, lastAdapted = Some 0\<rparr>
   \<and> maxDailyOf (adaptUserPreferences 0 None (goodDay 1)) \<noteq> Num 9
   \<and> maxDailyOf (adaptAll None [(0, goodDay 1), (1, goodDay 1)]) = Undefined
   \<and> maxDailyOf (adaptUserPreferences 0 (Some (noPreferences\<lparr>maxDailyTasks := Null\<rparr>)) (goodDay 1))
       = Num 9
   \<and> maxDailyOf (adaptUserPreferences 0 (prefsWith 0) (goodDay 1)) = Num 9
   \<and> maxDailyOf (adaptUserPreferences 0 (prefsWith 8) (goodDay 1)) = Num 9"
  by (simp add: adaptAll_def adaptUserPreferences_def adaptMaxDailyTasks_def Let_def
      prefsWith_def goodDay_def maxDailyOf_def noPreferences_def mathRound_def floor_eq_iff)

theorem maxDailyTasks_unset_not_defaulted_witness:
  "maxDailyOf None = Undefined
   \<and> 9 / 10 < completionRate (goodDay 1)
   \<and> maxDailyOf (adaptUserPreferences 0 None (goodDay 1)) = Undefined"
proof -
  have a: "maxDailyOf None = Undefined" by (simp add: maxDailyOf_def)
  have b: "9 / 10 < completionRate (goodDay 1)" by (simp add: goodDay_def)
  note g = maxDailyTasks_unset_not_defaulted[THEN conjunct1]
  have c: "maxDailyOf (adaptUserPreferences 0 None (goodDay 1)) = Undefined"
    unfolding g by (simp add: maxDailyOf_def)
  from a b c show ?thesis by (intro conjI)
qed

section \<open>Properties of the full workflow\<close>

lemma runAgent_throws:
  assumes "agents name = Some execute" "execute db = (Inl message, db1)"
  shows "\<exists>m'. runAgent agents name False (m, db) =
       (None, m', logAgentExecution (toUpperCase name @ ''_RUNNER'') ''critical_error'' None
                    (Some message) db1)
     \<and> totalRuns m' = totalRuns m + 1"
  using assms by (simp add: runAgent_def Let_def)

lemma runAgent_returns:
  assumes "agents name = Some execute" "execute db = (Inr result, db1)"
  shows "\<exists>m'. runAgent agents name False (m, db) = (Some result, m', db1)
     \<and> totalRuns m' = totalRuns m + 1"
  using assms by (simp add: runAgent_def Let_def)

lemma lastLog_workflowFailed:
  "lastLog (workflowFailed message st) =
     Some \<lparr>agent_name = ''FULL_WORKFLOW'', status = ''failed'', data = None,
           error_message = Some message\<rparr>"
  by (simp add: lastLog_def workflowFailed_def saveMetrics_def logAgentExecution_def)

lemma lastLog_success:
  "lastLog (m3, saveMetrics m3 (logAgentExecution ''FULL_WORKFLOW'' ''success'' d None db3)) =
     Some \<lparr>agent_name = ''FULL_WORKFLOW'', status = ''success'', data = d,
           error_message = None\<rparr>"
  by (simp add: lastLog_def saveMetrics_def logAgentExecution_def)

text \<open>
  C5.  In the full workflow with its three agents, a collector that throws ends the
  workflow with the log row \<open>FULL_WORKFLOW / failed / Data collection failed\<close> after one
  agent run; a planner that throws (after a successful collection) ends it with
  \<open>FULL_WORKFLOW / failed / AI planning failed\<close> after two runs; and once collection and
  planning have succeeded all three agents run and the workflow logs
  \<open>FULL_WORKFLOW / success\<close> whether the executor returns or throws, with the execution
  result or, when it threw, null in its place.
\<close>

theorem runFullWorkflow_fatal_and_advisory:
  assumes c: "agents ''collector'' = Some collect"
    and p: "agents ''planner'' = Some plan"
    and e: "agents ''executor'' = Some exec"
  shows "(\<forall>message db1. collect db = (Inl message, db1) \<longrightarrow>
            lastLog (runFullWorkflow agents (m, db)) =
              Some \<lparr>agent_name = ''FULL_WORKFLOW'', status = ''failed'', data = None,
                    error_message = Some ''Data collection failed''\<rparr>
          \<and> totalRuns (fst (runFullWorkflow agents (m, db))) = totalRuns m + 1)
     \<and> (\<forall>cr db1 message db2. collect db = (Inr cr, db1) \<and> plan db1 = (Inl message, db2) \<longrightarrow>
            lastLog (runFullWorkflow agents (m, db)) =
              Some \<lparr>agent_name = ''FULL_WORKFLOW'', status = ''failed'', data = None,
                    error_message = Some ''AI planning failed''\<rparr>
          \<and> totalRuns (fst (runFullWorkflow agents (m, db))) = totalRuns m + 2)
     \<and> (\<forall>cr db1 pr db2 message db3.
            collect db = (Inr cr, db1) \<and> plan db1 = (Inr pr, db2) \<and> exec db2 = (Inl message, db3) \<longrightarrow>
            lastLog (runFullWorkflow agents (m, db)) =
              Some \<lparr>agent_name = ''FULL_WORKFLOW'', status = ''success'',
                    data = Some (cr, pr, None), error_message = None\<rparr>
          \<and> totalRuns (fst (runFullWorkflow agents (m, db))) = totalRuns m + 3)
     \<and> (\<forall>cr db1 pr db2 er db3.
            collect db = (Inr cr, db1) \<and> plan db1 = (Inr pr, db2) \<and> exec db2 = (Inr er, db3) \<longrightarrow>
            lastLog (runFullWorkflow agents (m, db)) =
              Some \<lparr>agent_name = ''FULL_WORKFLOW'', status = ''success'',
                    data = Some (cr, pr, Some er), error_message = None\<rparr>
          \<and> totalRuns (fst (runFullWorkflow agents (m, db))) = totalRuns m + 3)"
proof -
  have collect_fails: "lastLog (runFullWorkflow agents (m, db)) =
        Some \<lparr>agent_name = ''FULL_WORKFLOW'', status = ''failed'', data = None,
              error_message = Some ''Data collection failed''\<rparr>
      \<and> totalRuns (fst (runFullWorkflow agents (m, db))) = totalRuns m + 1"
    if a: "collect db = (Inl message, db1)" for message db1
  proof -
    from runAgent_throws[of agents "''collector''" collect db message db1 m, OF c a] obtain m1 d1 where
      r1: "runAgent agents ''collector'' False (m, db) = (None, m1, d1)"
      and t1: "totalRuns m1 = totalRuns m + 1" by blast
    have r: "runFullWorkflow agents (m, db) = workflowFailed ''Data collection failed'' (m1, d1)"
      by (simp add: runFullWorkflow_def r1)
    show ?thesis unfolding r
      by (simp add: lastLog_workflowFailed) (simp add: workflowFailed_def t1)
  qed
  have plan_fails: "lastLog (runFullWorkflow agents (m, db)) =
        Some \<lparr>agent_name = ''FULL_WORKFLOW'', status = ''failed'', data = None,
              error_message = Some ''AI planning failed''\<rparr>
      \<and> totalRuns (fst (runFullWorkflow agents (m, db))) = totalRuns m + 2"
    if a: "collect db = (Inr cr, db1)" and b: "plan db1 = (Inl message, db2)"
    for cr db1 message db2
  proof -
    from runAgent_returns[of agents "''collector''" collect db cr db1 m, OF c a] obtain m1 where
      r1: "runAgent agents ''collector'' False (m, db) = (Some cr, m1, db1)"
      and t1: "totalRuns m1 = totalRuns m + 1" by blast
    from runAgent_throws[of agents "''planner''" plan db1 message db2 m1, OF p b] obtain m2 d2 where
      r2: "runAgent agents ''planner'' False (m1, db1) = (None, m2, d2)"
      and t2: "totalRuns m2 = totalRuns m1 + 1" by blast
    have r: "runFullWorkflow agents (m, db) = workflowFailed ''AI planning failed'' (m2, d2)"
      by (simp add: runFullWorkflow_def r1 r2)
    show ?thesis unfolding r
      by (simp add: lastLog_workflowFailed) (simp add: workflowFailed_def t1 t2)
  qed
  have both_ok: "lastLog (runFullWorkflow agents (m, db)) =
        Some \<lparr>agent_name = ''FULL_WORKFLOW'', status = ''success'',
              data = Some (cr, pr, x), error_message = None\<rparr>
      \<and> totalRuns (fst (runFullWorkflow agents (m, db))) = totalRuns m + 3"
    if a: "collect db = (Inr cr, db1)" and b: "plan db1 = (Inr pr, db2)"
      and r3: "\<And>m2. \<exists>m3 d3. runAgent agents ''executor'' False (m2, db2) = (x, m3, d3)
                 \<and> totalRuns m3 = totalRuns m2 + 1"
    for cr db1 pr db2 x
  proof -
    from runAgent_returns[of agents "''collector''" collect db cr db1 m, OF c a] obtain m1 where
      r1: "runAgent agents ''collector'' False (m, db) = (Some cr, m1, db1)"
      and t1: "totalRuns m1 = totalRuns m + 1" by blast
    from runAgent_returns[of agents "''planner''" plan db1 pr db2 m1, OF p b] obtain m2 where
      r2: "runAgent agents ''planner'' False (m1, db1) = (Some pr, m2, db2)"
      and t2: "totalRuns m2 = totalRuns m1 + 1" by blast
    from r3[of m2] obtain m3 d3 where
      r3': "runAgent agents ''executor'' False (m2, db2) = (x, m3, d3)"
      and t3: "totalRuns m3 = totalRuns m2 + 1" by blast
    have r: "runFullWorkflow agents (m, db) =
        (m3, saveMetrics m3 (logAgentExecution ''FULL_WORKFLOW'' ''success''
               (Some (cr, pr, x)) None d3))"
      by (simp add: runFullWorkflow_def r1 r2 r3')
    show ?thesis unfolding r
      by (simp add: lastLog_success t1 t2 t3)
  qed
  have exec_fails: "\<exists>m3 d3. runAgent agents ''executor'' False (m2, db2) = (None, m3, d3)
                 \<and> totalRuns m3 = totalRuns m2 + 1"
    if "exec db2 = (Inl message, db3)" for message db2 db3 m2
    using runAgent_throws[of agents "''executor''" exec db2 message db3 m2, OF e that] by blast
  have exec_ok: "\<exists>m3 d3. runAgent agents ''executor'' False (m2, db2) = (Some er, m3, d3)
                 \<and> totalRuns m3 = totalRuns m2 + 1"
    if "exec db2 = (Inr er, db3)" for er db2 db3 m2
    using runAgent_returns[of agents "''executor''" exec db2 er db3 m2, OF e that] by blast
  have f1: "\<forall>message db1. collect db = (Inl message, db1) \<longrightarrow>
            lastLog (runFullWorkflow agents (m, db)) =
              Some \<lparr>agent_name = ''FULL_WORKFLOW'', status = ''failed'', data = None,
                    error_message = Some ''Data collection failed''\<rparr>
          \<and> totalRuns (fst (runFullWorkflow agents (m, db))) = totalRuns m + 1"
    using collect_fails by blast
  have f2: "\<forall>cr db1 message db2. collect db = (Inr cr, db1) \<and> plan db1 = (Inl message, db2) \<longrightarrow>
            lastLog (runFullWorkflow agents (m, db)) =
              Some \<lparr>agent_name = ''FULL_WORKFLOW'', status = ''failed'', data = None,
                    error_message = Some ''AI planning failed''\<rparr>
          \<and> totalRuns (fst (runFullWorkflow agents (m, db))) = totalRuns m + 2"
    using plan_fails by blast
  have f3: "\<forall>cr db1 pr db2 message db3.
            collect db = (Inr cr, db1) \<and> plan db1 = (Inr pr, db2) \<and> exec db2 = (Inl message, db3) \<longrightarrow>
            lastLog (runFullWorkflow agents (m, db)) =
              Some \<lparr>agent_name = ''FULL_WORKFLOW'', status = ''success'',
                    data = Some (cr, pr, None), error_message = None\<rparr>
          \<and> totalRuns (fst (runFullWorkflow agents (m, db))) = totalRuns m + 3"
  proof (intro allI impI, elim conjE)
    fix cr db1 pr db2 message db3
    assume a: "collect db = (Inr cr, db1)" and b: "plan db1 = (Inr pr, db2)"
      and x: "exec db2 = (Inl message, db3)"
    show "lastLog (runFullWorkflow agents (m, db)) =
              Some \<lparr>agent_name = ''FULL_WORKFLOW'', status = ''success'',
                    data = Some (cr, pr, None), error_message = None\<rparr>
          \<and> totalRuns (fst (runFullWorkflow agents (m, db))) = totalRuns m + 3"
      by (rule both_ok[OF a b]) (rule exec_fails[OF x])
  qed
  have f4: "\<forall>cr db1 pr db2 er db3.
            collect db = (Inr cr, db1) \<and> plan db1 = (Inr pr, db2) \<and> exec db2 = (Inr er, db3) \<longrightarrow>
            lastLog (runFullWorkflow agents (m, db)) =
              Some \<lparr>agent_name = ''FULL_WORKFLOW'', status = ''success'',
                    data = Some (cr, pr, Some er), error_message = None\<rparr>
          \<and> totalRuns (fst (runFullWorkflow agents (m, db))) = totalRuns m + 3"
  proof (intro allI impI, elim conjE)
    fix cr db1 pr db2 er db3
    assume a: "collect db = (Inr cr, db1)" and b: "plan db1 = (Inr pr, db2)"
      and x: "exec db2 = (Inr er, db3)"
    show "lastLog (runFullWorkflow agents (m, db)) =
              Some \<lparr>agent_name = ''FULL_WORKFLOW'', status = ''success'',
                    data = Some (cr, pr, Some er), error_message = None\<rparr>
          \<and> totalRuns (fst (runFullWorkflow agents (m, db))) = totalRuns m + 3"
      by (rule both_ok[OF a b]) (rule exec_ok[OF x])
  qed
  from f1 f2 f3 f4 show ?thesis by (intro conjI)
qed

theorem runFullWorkflow_fatal_and_advisory_witness:
  "sampleAgents (returns ''data'') (throws ''no calendar'') ''collector'' = Some (returns ''data'')
   \<and> sampleAgents (returns ''data'') (throws ''no calendar'') ''planner'' = Some (returns ''plan'')
   \<and> sampleAgents (returns ''data'') (throws ''no calendar'') ''executor'' = Some (throws ''no calendar'')
   \<and> returns ''data'' freshDb = (Inr ''data'', freshDb)
   \<and> returns ''plan'' freshDb = (Inr ''plan'', freshDb)
   \<and> throws ''no calendar'' freshDb = (Inl ''no calendar'', freshDb)
   \<and> lastLog (runFullWorkflow (sampleAgents (returns ''data'') (throws ''no calendar''))
         (freshMetrics, freshDb)) =
       Some \<lparr>agent_name = ''FULL_WORKFLOW'', status = ''success'',
             data = Some (''data'', ''plan'', None), error_message = None\<rparr>
   \<and> totalRuns (fst (runFullWorkflow (sampleAgents (returns ''data'') (throws ''no calendar''))
         (freshMetrics, freshDb))) = totalRuns freshMetrics + 3"
proof -
  let ?agents = "sampleAgents (returns ''data'') (throws ''no calendar'')"
  have c: "?agents ''collector'' = Some (returns ''data'')"
    and p: "?agents ''planner'' = Some (returns ''plan'')"
    and e: "?agents ''executor'' = Some (throws ''no calendar'')"
    by (simp_all add: sampleAgents_def)
  have r: "returns ''data'' freshDb = (Inr ''data'', freshDb)"
    "returns ''plan'' freshDb = (Inr ''plan'', freshDb)"
    "throws ''no calendar'' freshDb = (Inl ''no calendar'', freshDb)"
    by (simp_all add: returns_def throws_def)
  note t = runFullWorkflow_fatal_and_advisory
    [of ?agents "returns ''data''" "returns ''plan''" "throws ''no calendar''" freshDb freshMetrics,
      OF c p e]
  from t have "\<forall>cr db1 pr db2 message db3.
      returns ''data'' freshDb = (Inr cr, db1) \<and> returns ''plan'' db1 = (Inr pr, db2)
        \<and> throws ''no calendar'' db2 = (Inl message, db3) \<longrightarrow>
      lastLog (runFullWorkflow ?agents (freshMetrics, freshDb)) =
        Some \<lparr>agent_name = ''FULL_WORKFLOW'', status = ''success'',
              data = Some (cr, pr, None), error_message = None\<rparr>
      \<and> totalRuns (fst (runFullWorkflow ?agents (freshMetrics, freshDb))) = totalRuns freshMetrics + 3"
    by (elim conjE)
  from this[rule_format, of "''data''" freshDb "''plan''" freshDb "''no calendar''" freshDb] r c p e
  show ?thesis by simp
qed

section \<open>Properties of executions in flight\<close>

text \<open>
  The two halves make up \<^verbatim>\<open>runAgent\<close>: a call that is resumed before anything else
  happens gives the result, the counters and the database of the function run in one
  piece, and leaves nothing pending.
\<close>

lemma runAgent_split:
  "runAgentResume agents 0
       (runAgentCall agents agentName standalone \<lparr>counters = m, store = db, awaiting = []\<rparr>)
     = (case runAgent agents agentName standalone (m, db) of
          (result, m', db') \<Rightarrow> (result, \<lparr>counters = m', store = db', awaiting = []\<rparr>))"
  by (cases "agents agentName")
     (auto simp: runAgentCall_def runAgentResume_def runAgent_def Let_def split: prod.splits sum.splits)






section \<open>Properties of the planning oracle\<close>

text \<open>
  C6 (as amended).  When the model's reply has no parsable structure,
  \<^verbatim>\<open>generateTaskPlan\<close> returns, without an exception, a plan with an empty schedule, no
  conflicts and a single recommendation that flags the failure, and conflict resolution
  and buffer insertion run through on that plan; when the call to the model itself fails,
  \<^verbatim>\<open>generateTaskPlan\<close> throws the error \<open>Failed to generate AI plan\<close>.
\<close>

theorem generateTaskPlan_failures:
  assumes "unparsable jsonParse text"
  shows "(\<exists>flag. generateTaskPlan jsonParse (Inr text) =
              Inr \<lparr>schedule = Some [], conflicts_detected = Some [],
                   recommendations = Some [flag]\<rparr>
            \<and> flag \<in> {''Failed to parse AI response'', ''Error parsing AI response''}
            \<and> resolveConflicts parseDate analyzeConflict rlog
                 \<lparr>schedule = Some [], conflicts_detected = Some [],
                  recommendations = Some [flag]\<rparr>
               = (Inr \<lparr>resolvedSchedule = [], resolvedConflicts = []\<rparr>, rlog))
     \<and> addBufferTime [] = Inr []
     \<and> generateTaskPlan jsonParse (Inl failure) = Inl (Error ''Failed to generate AI plan'')"
  using assms
  by (auto simp: unparsable_def generateTaskPlan_def parsePlanningResponse_def
      resolveConflicts_def addBufferTime_def split: option.splits)

theorem generateTaskPlan_failures_witness:
  "unparsable rejectAll ''Sorry, {no plan} today''
   \<and> jsonMatch ''Sorry, {no plan} today'' = Some ''{no plan}''
   \<and> generateTaskPlan rejectAll (Inr ''Sorry, {no plan} today'') =
       Inr \<lparr>schedule = Some [], conflicts_detected = Some [],
            recommendations = Some [''Error parsing AI response'']\<rparr>
   \<and> generateTaskPlan rejectAll (Inl ''ECONNREFUSED'') = Inl (Error ''Failed to generate AI plan'')"
proof -
  have m: "jsonMatch ''Sorry, {no plan} today'' = Some ''{no plan}''"
    by (simp add: jsonMatch_def)
  then have u: "unparsable rejectAll ''Sorry, {no plan} today''"
    by (simp add: unparsable_def rejectAll_def)
  have g: "generateTaskPlan rejectAll (Inr ''Sorry, {no plan} today'') =
       Inr \<lparr>schedule = Some [], conflicts_detected = Some [],
            recommendations = Some [''Error parsing AI response'']\<rparr>"
    by (simp add: generateTaskPlan_def parsePlanningResponse_def m rejectAll_def)
  from generateTaskPlan_failures[OF u, where failure = "''ECONNREFUSED''"] u m g show ?thesis
    by simp
qed

text \<open>
  An unreachable model is not a soft failure of plan generation: the call ends in an
  exception and yields no plan.
\<close>

theorem unreachable_oracle_throws:
  "generateTaskPlan rejectAll (Inl ''ECONNREFUSED'') = Inl (Error ''Failed to generate AI plan'')
   \<and> generateTaskPlan rejectAll (Inl ''ECONNREFUSED'')
       \<noteq> Inr \<lparr>schedule = Some [], conflicts_detected = Some [],
               recommendations = Some [''Failed to parse AI response'']\<rparr>"
  by (simp add: generateTaskPlan_def)

end
